theory Spec2Isabelle
  imports Main "HOL-Library.Finite_Map"
begin

section \<open>Values, objects and collaborators\<close>

text \<open>
  The module \<^verbatim>\<open>src/config.ts\<close> of ts-loader locates a tsconfig file, loads it, merges
  the loader's compiler options over it and hands the result to the TypeScript parser
  through a host that may append \<^verbatim>\<open>.ts\<close>/\<^verbatim>\<open>.tsx\<close> suffixes to file names.

  JavaScript values are a datatype; an object is a finite map from property names to
  values. A property whose value is \<^verbatim>\<open>undefined\<close> is still a property of the object
  (\<open>JUndefined\<close> stored under the key), which is different from an absent key.
\<close>

datatype jsvalue =
    JUndefined
  | JNull
  | JBool bool
  | JNum int
  | JStr string
  | JArr "jsvalue list"
  | JObj "(string, jsvalue) fmap"

type_synonym object = "(string, jsvalue) fmap"

text \<open>
  \<^verbatim>\<open>Object.assign(target, ...sources)\<close>: the own properties of every source are copied
  onto the target from left to right, so a later source overrides an earlier one; a
  source that is \<^verbatim>\<open>undefined\<close> is skipped.
\<close>

definition object_assign :: "object \<Rightarrow> object option list \<Rightarrow> object" where
  "object_assign target sources =
     fold (\<lambda>src acc. case src of None \<Rightarrow> acc | Some props \<Rightarrow> acc ++\<^sub>f props) sources target"

subsection \<open>Node's \<^verbatim>\<open>path\<close> module\<close>

text \<open>
  \<^verbatim>\<open>import * as path from 'path'\<close>: the functions of Node's path module that the source
  calls. The module belongs to the runtime, not to ts-loader, so the functions of
  \<^verbatim>\<open>config.ts\<close> take it as a parameter.
\<close>

record path_module =
  isAbsolute :: "string \<Rightarrow> bool"
  resolve :: "string \<Rightarrow> string \<Rightarrow> string"
  join :: "string \<Rightarrow> string \<Rightarrow> string"
  dirname :: "string \<Rightarrow> string"
  extname :: "string \<Rightarrow> string"

subsection \<open>The TypeScript system\<close>

text \<open>
  \<^verbatim>\<open>typescript.System\<close> (\<^verbatim>\<open>compiler.sys\<close>), restricted to the members \<^verbatim>\<open>config.ts\<close>
  uses. A call on the system is an effect on the world outside the loader: every
  operation takes the state \<open>'s\<close> of that world and returns the new one with its
  answer, so the number and the order of the calls made on the system are part of what a
  function of the model returns. \<^verbatim>\<open>readDirectory\<close> has optional parameters: the
  extensions are \<open>None\<close> when the caller passes none, and the remaining arguments
  (\<^verbatim>\<open>excludes, includes, depth\<close>) are the list of the values that were passed.
\<close>

record 's system =
  useCaseSensitiveFileNames :: bool
  fileExists :: "string \<Rightarrow> 's \<Rightarrow> bool \<times> 's"
  readFile :: "string \<Rightarrow> 's \<Rightarrow> string option \<times> 's"
  readDirectory :: "string \<Rightarrow> string list option \<Rightarrow> jsvalue list \<Rightarrow> 's \<Rightarrow> string list \<times> 's"

text \<open>
  A read-only file system that records the calls made on it: the state is the list of
  the calls so far, and the answers do not depend on it.
\<close>

datatype sys_call =
    FileExists string
  | ReadFile string
  | ReadDirectory string "string list option" "jsvalue list"

record filesystem =
  fs_caseSensitive :: bool
  fs_exists :: "string \<Rightarrow> bool"
  fs_read :: "string \<Rightarrow> string option"
  fs_list :: "string \<Rightarrow> string list option \<Rightarrow> jsvalue list \<Rightarrow> string list"

definition recording_sys :: "filesystem \<Rightarrow> sys_call list system" where
  "recording_sys fs =
     \<lparr> system.useCaseSensitiveFileNames = fs_caseSensitive fs,
       system.fileExists = (\<lambda>p calls. (fs_exists fs p, calls @ [FileExists p])),
       system.readFile = (\<lambda>p calls. (fs_read fs p, calls @ [ReadFile p])),
       system.readDirectory =
         (\<lambda>d exts rest calls. (fs_list fs d exts rest, calls @ [ReadDirectory d exts rest])) \<rparr>"

section \<open>findConfigFile\<close>

text \<open>
  The test \<^verbatim>\<open>configFile.match(/^\.\.?(\/|\\)/) !== null\<close>: the reference starts with one
  or two dots followed by a slash or a backslash.
\<close>

definition is_separator :: "char \<Rightarrow> bool" where
  "is_separator c = (c = CHR ''/'' \<or> c = CHR 0x5C)"

fun matches_relative_pattern :: "string \<Rightarrow> bool" where
  "matches_relative_pattern (c1 # c2 # rest) =
     (c1 = CHR ''.'' \<and>
      (is_separator c2 \<or>
       (c2 = CHR ''.'' \<and> (case rest of [] \<Rightarrow> False | c3 # _ \<Rightarrow> is_separator c3))))"
| "matches_relative_pattern _ = False"

text \<open>
  The \<^verbatim>\<open>while (true)\<close> loop of the file-name branch (lines 105 to 115). It has no bound
  of its own: it returns when the file exists or when \<^verbatim>\<open>path.dirname\<close> gives the
  directory back, so it is a partial function and \<open>None\<close> stands for a loop that
  never returns.
\<close>

partial_function (option) findConfigFile_loop ::
  "path_module \<Rightarrow> 's system \<Rightarrow> string \<Rightarrow> string \<Rightarrow> 's \<Rightarrow> (string option \<times> 's) option"
where
  "findConfigFile_loop path sys configFile requestDirPath s =
     (let fileName = join path requestDirPath configFile in
      case system.fileExists sys fileName s of
        (found, s') \<Rightarrow>
          if found then Some (Some fileName, s')
          else (let parentPath = dirname path requestDirPath in
                if parentPath = requestDirPath then Some (None, s')
                else findConfigFile_loop path sys configFile parentPath s'))"

definition findConfigFile ::
  "path_module \<Rightarrow> 's system \<Rightarrow> string \<Rightarrow> string \<Rightarrow> 's \<Rightarrow> (string option \<times> 's) option"
where
  "findConfigFile path sys requestDirPath configFile s =
     (if isAbsolute path configFile then
        (case system.fileExists sys configFile s of
           (found, s') \<Rightarrow> Some (if found then Some configFile else None, s'))
      else if matches_relative_pattern configFile then
        (let resolvedPath = resolve path requestDirPath configFile in
         case system.fileExists sys resolvedPath s of
           (found, s') \<Rightarrow> Some (if found then Some resolvedPath else None, s'))
      else findConfigFile_loop path sys configFile requestDirPath s)"

text \<open>
  The directories the loop visits: the \<open>n\<close>-th ancestor of a directory is \<open>n\<close>
  applications of \<^verbatim>\<open>path.dirname\<close>, and \<open>probes\<close> lists the existence checks of the
  first \<open>n\<close> levels.
\<close>

primrec ancestor :: "path_module \<Rightarrow> string \<Rightarrow> nat \<Rightarrow> string" where
  "ancestor path d 0 = d"
| "ancestor path d (Suc n) = ancestor path (dirname path d) n"

definition probes :: "path_module \<Rightarrow> string \<Rightarrow> string \<Rightarrow> nat \<Rightarrow> sys_call list" where
  "probes path configFile d n = map (\<lambda>m. FileExists (join path (ancestor path d m) configFile)) [0..<n]"

section \<open>A model of Node's POSIX path functions\<close>

text \<open>
  \<^verbatim>\<open>path.posix\<close> as Node implements it, on byte strings. \<open>posix_dirname\<close> follows
  Node's scan: from the end of the path and down to index 1, the trailing slashes are
  skipped, then the last component, and the path is cut at the slash found there; a
  path with no such slash has the parent \<^verbatim>\<open>/\<close> (when it starts with a slash) or
  \<^verbatim>\<open>.\<close>, and a cut at index 1 of a rooted path gives \<^verbatim>\<open>//\<close>.
\<close>

definition slash :: char where
  "slash = CHR ''/''"

definition posix_isAbsolute :: "string \<Rightarrow> bool" where
  "posix_isAbsolute p = (case p of [] \<Rightarrow> False | c # _ \<Rightarrow> c = slash)"

definition posix_dirname :: "string \<Rightarrow> string" where
  "posix_dirname p =
     (if p = [] then ''.''
      else
        (let hasRoot = (hd p = slash);
             r = dropWhile (\<lambda>c. c \<noteq> slash) (dropWhile (\<lambda>c. c = slash) (rev (tl p)))
         in if r = [] then (if hasRoot then ''/'' else ''.'')
            else if hasRoot \<and> length r = 1 then ''//''
            else take (length r) p))"

fun split_on :: "char \<Rightarrow> string \<Rightarrow> string list" where
  "split_on c [] = [[]]"
| "split_on c (x # xs) =
     (if x = c then [] # split_on c xs
      else (case split_on c xs of [] \<Rightarrow> [[x]] | seg # segs \<Rightarrow> (x # seg) # segs))"

fun join_with :: "string \<Rightarrow> string list \<Rightarrow> string" where
  "join_with sep [] = []"
| "join_with sep [x] = x"
| "join_with sep (x # y # ys) = x @ sep @ join_with sep (y # ys)"

text \<open>
  \<^verbatim>\<open>normalizeString\<close>: empty and \<^verbatim>\<open>.\<close> segments are dropped, \<^verbatim>\<open>..\<close> removes the segment
  before it, and is kept only where the path may climb above its start. The
  accumulator holds the segments kept so far, last first.
\<close>

definition normalize_step :: "bool \<Rightarrow> string \<Rightarrow> string list \<Rightarrow> string list" where
  "normalize_step allowAboveRoot seg acc =
     (if seg = [] \<or> seg = ''.'' then acc
      else if seg = ''..'' then
        (case acc of
           [] \<Rightarrow> if allowAboveRoot then [''..''] else []
         | lastSeg # below \<Rightarrow>
             if lastSeg = ''..'' then (if allowAboveRoot then ''..'' # acc else acc) else below)
      else seg # acc)"

definition normalizeString :: "string \<Rightarrow> bool \<Rightarrow> string" where
  "normalizeString p allowAboveRoot =
     join_with ''/'' (rev (fold (normalize_step allowAboveRoot) (split_on slash p) []))"

definition posix_normalize :: "string \<Rightarrow> string" where
  "posix_normalize p =
     (if p = [] then ''.''
      else
        (let isAbs = (hd p = slash);
             trailingSeparator = (last p = slash);
             q = normalizeString p (\<not> isAbs)
         in if q = [] then (if isAbs then ''/'' else if trailingSeparator then ''./'' else ''.'')
            else (let q' = (if trailingSeparator then q @ ''/'' else q)
                  in if isAbs then ''/'' @ q' else q')))"

definition posix_join :: "string \<Rightarrow> string \<Rightarrow> string" where
  "posix_join a b =
     (let parts = filter (\<lambda>x. x \<noteq> []) [a, b]
      in if parts = [] then ''.'' else posix_normalize (join_with ''/'' parts))"

text \<open>
  \<^verbatim>\<open>path.resolve\<close> reads its arguments from the right until one is absolute, and the
  working directory of the process after them.
\<close>

fun resolve_from :: "string list \<Rightarrow> string \<Rightarrow> string \<times> bool" where
  "resolve_from [] resolvedPath = (resolvedPath, False)"
| "resolve_from (p # ps) resolvedPath =
     (if p = [] then resolve_from ps resolvedPath
      else if hd p = slash then (p @ ''/'' @ resolvedPath, True)
      else resolve_from ps (p @ ''/'' @ resolvedPath))"

definition posix_resolve :: "string \<Rightarrow> string \<Rightarrow> string \<Rightarrow> string" where
  "posix_resolve cwd a b =
     (case resolve_from [b, a, cwd] [] of
        (resolvedPath, resolvedAbsolute) \<Rightarrow>
          (let q = normalizeString resolvedPath (\<not> resolvedAbsolute)
           in if resolvedAbsolute then ''/'' @ q else if q \<noteq> [] then q else ''.''))"

text \<open>
  \<^verbatim>\<open>path.extname\<close>: the part of the last component from its last dot on; empty when the
  component has no dot, starts with its only dot, or is \<^verbatim>\<open>..\<close>.
\<close>

definition last_component :: "string \<Rightarrow> string" where
  "last_component p = rev (takeWhile (\<lambda>c. c \<noteq> slash) (dropWhile (\<lambda>c. c = slash) (rev p)))"

definition posix_extname :: "string \<Rightarrow> string" where
  "posix_extname p =
     (let comp = last_component p;
          ext = rev (takeWhile (\<lambda>c. c \<noteq> CHR ''.'') (rev comp));
          stem = take (length comp - length ext - 1) comp
      in if CHR ''.'' \<notin> set comp \<or> stem = [] \<or> comp = ''..'' then []
         else CHR ''.'' # ext)"

definition posix :: "string \<Rightarrow> path_module" where
  "posix cwd =
     \<lparr> isAbsolute = posix_isAbsolute,
       resolve = posix_resolve cwd,
       join = posix_join,
       dirname = posix_dirname,
       extname = posix_extname \<rparr>"

section \<open>Loading the configuration\<close>

text \<open>
  The data of \<^verbatim>\<open>./interfaces\<close> that \<^verbatim>\<open>config.ts\<close> touches. A \<^verbatim>\<open>ConfigFile\<close> is
  \<^verbatim>\<open>{ config?: any; error?: Diagnostic }\<close>; of the raw configuration the source reads
  and writes \<^verbatim>\<open>compilerOptions\<close> only, and its empty default has \<^verbatim>\<open>files: []\<close>. An
  optional member that is \<^verbatim>\<open>undefined\<close> is \<open>None\<close>. A regular expression of the loader
  options is the predicate of the strings it matches. The members \<^verbatim>\<open>configFile\<close> and
  \<^verbatim>\<open>compilerOptions\<close> of the loader options are the fields
  \<open>loaderOptions_configFile\<close> and \<open>loaderOptions_compilerOptions\<close>, apart from the
  variable and the member of the configuration that have the same names.
\<close>

type_synonym regexp = "string \<Rightarrow> bool"

record diagnostic =
  code :: int
  messageText :: string

record webpack_error =
  message :: string
  errorFile :: "string option"

record raw_config =
  compilerOptions :: "object option"
  files :: "string list option"
  otherProperties :: object

record config_file =
  config :: "raw_config option"
  error :: "diagnostic option"

record loader_options =
  loaderOptions_configFile :: string
  loaderOptions_compilerOptions :: object
  appendTsSuffixTo :: "regexp list"
  appendTsxSuffixTo :: "regexp list"

record loader_context =
  resourcePath :: string
  loaderContext :: string

text \<open>
  The functions imported from \<^verbatim>\<open>./utils\<close>. Their code is not part of \<^verbatim>\<open>config.ts\<close>, so
  they are parameters: \<open>formatErrors\<close> gets the diagnostics, the loader options, the
  \<^verbatim>\<open>file\<close> of its \<^verbatim>\<open>merge\<close> argument and the loader's context (\<^verbatim>\<open>colors\<close> and
  \<^verbatim>\<open>compiler\<close>, which it also gets, are the same in every call and are left out), and
  returns an array of errors; \<open>getPossiblyRenamedFilePath\<close> gets a file name and the
  loader options.
\<close>

record utils =
  formatErrors :: "diagnostic list \<Rightarrow> loader_options \<Rightarrow> string option \<Rightarrow> string \<Rightarrow> webpack_error list"
  getPossiblyRenamedFilePath :: "string \<Rightarrow> loader_options \<Rightarrow> string"

text \<open>
  \<^verbatim>\<open>typescript.ParseConfigHost\<close>: the host the parser reads the file system through. Its
  \<^verbatim>\<open>readDirectory\<close> always gets the extensions. A \<^verbatim>\<open>System\<close> is a \<^verbatim>\<open>ParseConfigHost\<close>
  as it is: \<open>sys_as_host\<close> is that view of the same object.
\<close>

record 's parse_config_host =
  useCaseSensitiveFileNames :: bool
  fileExists :: "string \<Rightarrow> 's \<Rightarrow> bool \<times> 's"
  readFile :: "string \<Rightarrow> 's \<Rightarrow> string option \<times> 's"
  readDirectory :: "string \<Rightarrow> string list \<Rightarrow> jsvalue list \<Rightarrow> 's \<Rightarrow> string list \<times> 's"

definition sys_as_host :: "'s system \<Rightarrow> 's parse_config_host" where
  "sys_as_host sys =
     \<lparr> parse_config_host.useCaseSensitiveFileNames = system.useCaseSensitiveFileNames sys,
       parse_config_host.fileExists = system.fileExists sys,
       parse_config_host.readFile = system.readFile sys,
       parse_config_host.readDirectory =
         (\<lambda>rootDir extensions rest. system.readDirectory sys rootDir (Some extensions) rest) \<rparr>"

record parsed_command_line =
  options :: object
  fileNames :: "string list"
  errors :: "diagnostic list"

text \<open>
  The TypeScript compiler (\<^verbatim>\<open>typeof typescript\<close>) and \<^verbatim>\<open>semver\<close>, each with the members
  the source calls. The parser works through the host it is given, so both parsing
  functions are effects on the state of the system.
\<close>

text \<open>The member \<^verbatim>\<open>compiler.sys\<close> is the field \<open>compiler_sys\<close>.\<close>

record 's compiler =
  compiler_sys :: "'s system"
  version :: string
  readConfigFile ::
    "string \<Rightarrow> (string \<Rightarrow> 's \<Rightarrow> string option \<times> 's) \<Rightarrow> 's \<Rightarrow> config_file \<times> 's"
  parseJsonConfigFileContent ::
    "raw_config option \<Rightarrow> 's parse_config_host \<Rightarrow> string \<Rightarrow> 's \<Rightarrow> parsed_command_line \<times> 's"

record semver_module =
  gte :: "string \<Rightarrow> string \<Rightarrow> bool"

datatype js_exception = TypeError string

text \<open>\<^verbatim>\<open>array[0]\<close>: the first element, \<^verbatim>\<open>undefined\<close> for an empty array.\<close>

definition element0 :: "'a list \<Rightarrow> 'a option" where
  "element0 xs = (case xs of [] \<Rightarrow> None | x # _ \<Rightarrow> Some x)"

text \<open>
  Lines 25 to 58 of \<^verbatim>\<open>getConfigFile\<close>: what \<^verbatim>\<open>configFile\<close> and \<^verbatim>\<open>configFileError\<close>
  hold after the \<^verbatim>\<open>if\<close>, the messages passed to \<^verbatim>\<open>log.logInfo\<close> in order, and the state
  of the system.
\<close>

definition getConfigFile_load ::
  "utils \<Rightarrow> 's compiler \<Rightarrow> loader_context \<Rightarrow> loader_options \<Rightarrow> bool \<Rightarrow> string \<Rightarrow>
   string option \<Rightarrow> 's \<Rightarrow> config_file \<times> webpack_error option \<times> string list \<times> 's"
where
  "getConfigFile_load utils compiler loader loaderOptions compilerCompatible
       compilerDetailsLogMessage configFilePath s =
     (case configFilePath of
        Some found \<Rightarrow>
          (let logged =
                 [if compilerCompatible then compilerDetailsLogMessage @ '' and '' @ found
                  else ''ts-loader: Using config file at '' @ found]
           in case readConfigFile compiler found (system.readFile (compiler_sys compiler)) s of
                (configFile, s') \<Rightarrow>
                  (configFile,
                   (case error configFile of
                      Some e \<Rightarrow>
                        element0 (formatErrors utils [e] loaderOptions (Some found) (loaderContext loader))
                    | None \<Rightarrow> None),
                   logged, s'))
      | None \<Rightarrow>
          (\<lparr> config = Some \<lparr> compilerOptions = Some fmempty, files = Some [],
                               otherProperties = fmempty \<rparr>,
             error = None \<rparr>,
           None,
           (if compilerCompatible then [compilerDetailsLogMessage] else []),
           s))"

text \<open>
  Lines 60 to 66: without a \<^verbatim>\<open>configFileError\<close> the compiler options of the file are
  replaced by \<^verbatim>\<open>Object.assign({}, configFile.config.compilerOptions,
  loaderOptions.compilerOptions)\<close>. Reading \<^verbatim>\<open>compilerOptions\<close> of a \<^verbatim>\<open>config\<close> that is
  \<^verbatim>\<open>undefined\<close> throws a TypeError.
\<close>

definition getConfigFile_merge ::
  "config_file \<Rightarrow> webpack_error option \<Rightarrow> loader_options \<Rightarrow> js_exception + config_file"
where
  "getConfigFile_merge configFile configFileError loaderOptions =
     (if configFileError = None then
        (case config configFile of
           None \<Rightarrow> Inl (TypeError ''Cannot read property compilerOptions of undefined'')
         | Some c \<Rightarrow>
             Inr (configFile\<lparr> config := Some (c\<lparr> compilerOptions :=
               Some (object_assign fmempty
                       [compilerOptions c, Some (loaderOptions_compilerOptions loaderOptions)]) \<rparr>) \<rparr>))
      else Inr configFile)"

text \<open>
  The object \<^verbatim>\<open>{ configFilePath, configFile, configFileError }\<close> that
  \<^verbatim>\<open>getConfigFile\<close> returns.
\<close>

record config_load =
  returned_configFilePath :: "string option"
  returned_configFile :: config_file
  returned_configFileError :: "webpack_error option"

text \<open>
  \<^verbatim>\<open>getConfigFile\<close>. The result is \<open>None\<close> when the search for the file does not
  return; otherwise it holds the object returned or the exception thrown, the messages
  logged and the state of the system.
\<close>

definition getConfigFile ::
  "path_module \<Rightarrow> utils \<Rightarrow> 's compiler \<Rightarrow> loader_context \<Rightarrow> loader_options \<Rightarrow> bool \<Rightarrow> string \<Rightarrow>
   's \<Rightarrow> ((js_exception + config_load) \<times> string list \<times> 's) option"
where
  "getConfigFile path utils compiler loader loaderOptions compilerCompatible
       compilerDetailsLogMessage s =
     (case findConfigFile path (compiler_sys compiler) (dirname path (resourcePath loader))
             (loaderOptions_configFile loaderOptions) s of
        None \<Rightarrow> None
      | Some (found, s1) \<Rightarrow>
          (case getConfigFile_load utils compiler loader loaderOptions compilerCompatible
                  compilerDetailsLogMessage found s1 of
             (loaded, loadError, logged, s2) \<Rightarrow>
               (case getConfigFile_merge loaded loadError loaderOptions of
                  Inl exn \<Rightarrow> Some (Inl exn, logged, s2)
                | Inr merged \<Rightarrow>
                    Some (Inr \<lparr> returned_configFilePath = found, returned_configFile = merged,
                               returned_configFileError = loadError \<rparr>,
                          logged, s2))))"

text \<open>
  The \<^verbatim>\<open>configFileError\<close> of what \<^verbatim>\<open>getConfigFile\<close> gives back (none when it threw).
\<close>

definition load_error_of :: "js_exception + config_load \<Rightarrow> webpack_error option" where
  "load_error_of r = (case r of Inl exn \<Rightarrow> None | Inr out \<Rightarrow> returned_configFileError out)"

section \<open>The host that appends suffixes\<close>

text \<open>
  \<^verbatim>\<open>String.prototype.toLowerCase\<close> belongs to the JavaScript runtime: it lower-cases by
  the Unicode case mapping, which a function on byte strings does not reproduce. The
  methods of strings that the source calls are therefore a parameter of the functions
  below, and what is proved of them holds whatever the lower-casing is.
\<close>

record string_methods =
  toLowerCase :: "string \<Rightarrow> string"

definition mapArg :: "('a \<Rightarrow> 'b) \<Rightarrow> ('a \<Rightarrow> 'a) \<Rightarrow> 'a \<Rightarrow> 'b" where
  "mapArg toWrap wrapWith = (\<lambda>x. toWrap (wrapWith x))"

text \<open>
  The callback of \<^verbatim>\<open>allFiles.reduce\<close> (lines 161 to 173): the extension of a file is
  pushed when the file is renamed, the extension of its new name is among the
  requested ones, and its own extension is not the empty string.
\<close>

definition customExtensions_step ::
  "path_module \<Rightarrow> string_methods \<Rightarrow> (string \<Rightarrow> string) \<Rightarrow> string list \<Rightarrow> string list \<Rightarrow>
   string \<Rightarrow> string list"
where
  "customExtensions_step path strings transformFileName extensions exts fileName =
     (let renamed = transformFileName fileName in
      if renamed \<noteq> fileName \<and> toLowerCase strings (extname path renamed) \<in> set extensions then
        (let ext = toLowerCase strings (extname path fileName) in
         if ext \<noteq> [] then exts @ [ext] else exts)
      else exts)"

definition getSuffixAppendingParseConfigHost ::
  "path_module \<Rightarrow> string_methods \<Rightarrow> utils \<Rightarrow> 's system \<Rightarrow> loader_options \<Rightarrow>
   's parse_config_host"
where
  "getSuffixAppendingParseConfigHost path strings utils sys loaderOptions =
     (let transformFileName =
            (\<lambda>rawFileName. getPossiblyRenamedFilePath utils rawFileName loaderOptions)
      in if appendTsSuffixTo loaderOptions = [] \<and> appendTsxSuffixTo loaderOptions = [] then
           sys_as_host sys
         else
           \<lparr> parse_config_host.useCaseSensitiveFileNames = system.useCaseSensitiveFileNames sys,
             parse_config_host.fileExists = mapArg (system.fileExists sys) transformFileName,
             parse_config_host.readFile = mapArg (system.readFile sys) transformFileName,
             parse_config_host.readDirectory =
               (\<lambda>rootDir extensions rest s.
                  case system.readDirectory sys rootDir None [] s of
                    (allFiles, s1) \<Rightarrow>
                      (let customExtensions =
                             foldl (customExtensions_step path strings transformFileName extensions) [] allFiles
                       in case system.readDirectory sys rootDir
                                 (Some (extensions @ customExtensions)) rest s1 of
                            (names, s2) \<Rightarrow> (map transformFileName names, s2))) \<rparr>)"

text \<open>
  What the reduction computes, without the accumulator: the lower-cased extensions of
  the renamed files whose new extension is requested, in the order of the listing,
  those without an extension left out.
\<close>

definition discovered_extensions ::
  "path_module \<Rightarrow> string_methods \<Rightarrow> (string \<Rightarrow> string) \<Rightarrow> string list \<Rightarrow> string list \<Rightarrow>
   string list"
where
  "discovered_extensions path strings transformFileName extensions allFiles =
     filter (\<lambda>ext. ext \<noteq> [])
       (map (\<lambda>fileName. toLowerCase strings (extname path fileName))
          (filter (\<lambda>fileName. transformFileName fileName \<noteq> fileName \<and>
                     toLowerCase strings (extname path (transformFileName fileName))
                       \<in> set extensions)
             allFiles))"

section \<open>Parsing the configuration\<close>

text \<open>
  \<^verbatim>\<open>getConfigParseResult\<close>. The object literal \<^verbatim>\<open>{ configFilePath }\<close> has the property
  \<^verbatim>\<open>configFilePath\<close> whatever its value is, \<^verbatim>\<open>undefined\<close> included.
\<close>

definition js_string_or_undefined :: "string option \<Rightarrow> jsvalue" where
  "js_string_or_undefined v = (case v of None \<Rightarrow> JUndefined | Some str \<Rightarrow> JStr str)"

definition getConfigParseResult ::
  "path_module \<Rightarrow> string_methods \<Rightarrow> utils \<Rightarrow> semver_module \<Rightarrow> 's compiler \<Rightarrow> config_file \<Rightarrow>
   string \<Rightarrow> string option \<Rightarrow> loader_options \<Rightarrow> 's \<Rightarrow> parsed_command_line \<times> 's"
where
  "getConfigParseResult path strings utils semver compiler configFile basePath configFilePath
       loaderOptions s =
     (case parseJsonConfigFileContent compiler (config configFile)
             (getSuffixAppendingParseConfigHost path strings utils (compiler_sys compiler) loaderOptions)
             basePath s of
        (configParseResult, s') \<Rightarrow>
          (if gte semver (version compiler) ''3.5.0'' then
             configParseResult\<lparr> options :=
               object_assign fmempty
                 [Some (options configParseResult),
                  Some (fmap_of_list [(''configFilePath'', js_string_or_undefined configFilePath)])] \<rparr>
           else configParseResult,
           s'))"

section \<open>A file system for the examples\<close>

text \<open>
  A file system given by the list of its files. Its directory listing keeps the files
  whose names end with one of the requested extensions, and every file when no
  extensions are requested, in the order of the list (\<^verbatim>\<open>String.prototype.endsWith\<close>).
\<close>

definition endsWith :: "string \<Rightarrow> string \<Rightarrow> bool" where
  "endsWith str e = (length e \<le> length str \<and> drop (length str - length e) str = e)"

definition example_fs :: "string list \<Rightarrow> filesystem" where
  "example_fs paths =
     \<lparr> fs_caseSensitive = True,
       fs_exists = (\<lambda>p. p \<in> set paths),
       fs_read = (\<lambda>p. if p \<in> set paths then Some [] else None),
       fs_list = (\<lambda>d exts rest.
          filter (\<lambda>f. case exts of None \<Rightarrow> True | Some es \<Rightarrow> list_ex (endsWith f) es) paths) \<rparr>"

section \<open>Collaborators for the examples\<close>

text \<open>
  Modelled from the spec: the rewrite transform of \<^verbatim>\<open>./utils\<close>
  (\<^verbatim>\<open>getPossiblyRenamedFilePath\<close>), whose code is not in \<^verbatim>\<open>config.ts\<close>. A file that a
  rule of \<^verbatim>\<open>appendTsSuffixTo\<close> matches is addressed under its name with \<^verbatim>\<open>.ts\<close>
  appended (a real \<^verbatim>\<open>.vue\<close> file as \<^verbatim>\<open>name.vue.ts\<close>), likewise \<^verbatim>\<open>.tsx\<close> for
  \<^verbatim>\<open>appendTsxSuffixTo\<close>; any other name is left as it is.
\<close>

definition append_suffixes :: "string \<Rightarrow> loader_options \<Rightarrow> string" where
  "append_suffixes rawFileName loaderOptions =
     (let withTs = (if list_ex (\<lambda>re. re rawFileName) (appendTsSuffixTo loaderOptions)
                    then rawFileName @ ''.ts'' else rawFileName)
      in if list_ex (\<lambda>re. re withTs) (appendTsxSuffixTo loaderOptions)
         then withTs @ ''.tsx'' else withTs)"

text \<open>
  An error formatter for the examples: it leaves out the diagnostics whose code is in
  \<open>ignored\<close> and turns every other one into an error with the diagnostic's message.
\<close>

definition example_utils :: "int list \<Rightarrow> utils" where
  "example_utils ignored =
     \<lparr> formatErrors =
         (\<lambda>diagnostics loaderOptions mergeFile ctx.
            map (\<lambda>d. \<lparr> message = messageText d, errorFile = mergeFile \<rparr>)
              (filter (\<lambda>d. code d \<notin> set ignored) diagnostics)),
       getPossiblyRenamedFilePath = append_suffixes \<rparr>"

text \<open>
  A compiler for the examples, on a recording file system: \<open>readConfigFile\<close> reads the
  file through the function it is given and looks the result up in a table by file
  name; \<open>parseJsonConfigFileContent\<close> lists the base path through its host for the
  TypeScript extensions and takes the options of the configuration.
\<close>

definition example_compiler ::
  "string \<Rightarrow> filesystem \<Rightarrow> (string \<Rightarrow> config_file) \<Rightarrow> sys_call list compiler"
where
  "example_compiler v fs table =
     \<lparr> compiler_sys = recording_sys fs,
       version = v,
       readConfigFile = (\<lambda>fileName readFileFn s. (table fileName, snd (readFileFn fileName s))),
       parseJsonConfigFileContent =
         (\<lambda>json host basePath s.
            case parse_config_host.readDirectory host basePath [''.ts'', ''.tsx'', ''.d.ts''] [] s of
              (names, s') \<Rightarrow>
                (\<lparr> options = (case json of
                                 None \<Rightarrow> fmempty
                               | Some c \<Rightarrow> (case compilerOptions c of None \<Rightarrow> fmempty | Some opts \<Rightarrow> opts)),
                   fileNames = names,
                   errors = [] \<rparr>, s')) \<rparr>"

text \<open>
  \<^verbatim>\<open>semver.gte\<close> for the examples, on versions \<^verbatim>\<open>MAJOR.MINOR.PATCH\<close> with an optional
  \<^verbatim>\<open>-prerelease\<close> tag: the numbers are compared in order, and with equal numbers a
  version with a tag is below the one without. (Two tags are not compared; the
  threshold of the source has none.)
\<close>

definition decimal :: "string \<Rightarrow> nat" where
  "decimal digits = foldl (\<lambda>n c. 10 * n + (of_char c - 48)) 0 digits"

definition version_numbers :: "string \<Rightarrow> nat list" where
  "version_numbers v =
     map decimal (split_on (CHR ''.'') (takeWhile (\<lambda>c. c \<noteq> CHR ''-'' \<and> c \<noteq> CHR ''+'') v))"

definition has_prerelease :: "string \<Rightarrow> bool" where
  "has_prerelease v = (CHR ''-'' \<in> set (takeWhile (\<lambda>c. c \<noteq> CHR ''+'') v))"

fun numbers_less :: "nat list \<Rightarrow> nat list \<Rightarrow> bool" where
  "numbers_less [] [] = False"
| "numbers_less [] (y # ys) = True"
| "numbers_less (x # xs) [] = False"
| "numbers_less (x # xs) (y # ys) = (x < y \<or> (x = y \<and> numbers_less xs ys))"

definition example_semver :: semver_module where
  "example_semver =
     \<lparr> gte = (\<lambda>a b. numbers_less (version_numbers b) (version_numbers a)
                  \<or> (version_numbers a = version_numbers b \<and> (has_prerelease b \<or> \<not> has_prerelease a))) \<rparr>"

text \<open>Loader options for the examples, and a rule that matches the \<^verbatim>\<open>.vue\<close> files.\<close>

definition vue_rule :: regexp where
  "vue_rule = (\<lambda>fileName. endsWith fileName ''.vue'')"

text \<open>
  The lower-casing of the examples maps the letters \<^verbatim>\<open>A\<close> to \<^verbatim>\<open>Z\<close> to \<^verbatim>\<open>a\<close> to \<^verbatim>\<open>z\<close> and
  leaves every other byte as it is. On a string of ASCII characters, as every file name
  of the examples is, that is what \<^verbatim>\<open>String.prototype.toLowerCase\<close> returns.
\<close>

definition lower_char :: "char \<Rightarrow> char" where
  "lower_char c =
     (if (65::nat) \<le> of_char c \<and> of_char c \<le> (90::nat) then char_of (of_char c + (32::nat)) else c)"

definition ascii_lower :: "string \<Rightarrow> string" where
  "ascii_lower str = map lower_char str"

definition ascii_strings :: string_methods where
  "ascii_strings = \<lparr> toLowerCase = ascii_lower \<rparr>"

text \<open>
  Two more rules: \<^verbatim>\<open>/\.vue$/i\<close>, which matches whatever the case of the letters, and
  \<^verbatim>\<open>/Makefile$/\<close>.
\<close>

definition vue_rule_any_case :: regexp where
  "vue_rule_any_case = (\<lambda>fileName. endsWith (ascii_lower fileName) ''.vue'')"

definition makefile_rule :: regexp where
  "makefile_rule = (\<lambda>fileName. endsWith fileName ''Makefile'')"

definition example_options :: "object \<Rightarrow> regexp list \<Rightarrow> loader_options" where
  "example_options callerOptions tsRules =
     \<lparr> loaderOptions_configFile = ''tsconfig.json'',
       loaderOptions_compilerOptions = callerOptions,
       appendTsSuffixTo = tsRules,
       appendTsxSuffixTo = [] \<rparr>"

definition example_loader :: loader_context where
  "example_loader = \<lparr> resourcePath = ''/a/b/index.ts'', loaderContext = ''/a'' \<rparr>"

text \<open>
  Two parse results for the examples: a file with the options \<^verbatim>\<open>{a: 1, b: 2}\<close>, and a
  file with the same options that the parser reports an error for.
\<close>

definition file_options :: object where
  "file_options = fmap_of_list [(''a'', JNum 1), (''b'', JNum 2)]"

definition caller_options :: object where
  "caller_options = fmap_of_list [(''b'', JNum 3), (''c'', JNum 4)]"

definition parsed_file :: config_file where
  "parsed_file =
     \<lparr> config = Some \<lparr> compilerOptions = Some file_options, files = None,
                         otherProperties = fmempty \<rparr>,
       error = None \<rparr>"

definition broken_file :: config_file where
  "broken_file =
     \<lparr> config = Some \<lparr> compilerOptions = Some file_options, files = None,
                         otherProperties = fmempty \<rparr>,
       error = Some \<lparr> code = 1005, messageText = ''comma expected'' \<rparr> \<rparr>"

section \<open>A measure for the walk\<close>

text \<open>
  The measure under which \<open>posix_dirname\<close> decreases: a directory that is its own
  parent has measure 0, any other the successor of its length.
\<close>

definition climb_measure :: "string \<Rightarrow> nat" where
  "climb_measure d = (if posix_dirname d = d then 0 else Suc (length d))"

section \<open>The directory walk\<close>

lemma loop_unfold_found:
  "system.fileExists sys (join path d cf) s = (True, s') \<Longrightarrow>
   findConfigFile_loop path sys cf d s = Some (Some (join path d cf), s')"
  by (subst findConfigFile_loop.simps) simp

lemma loop_unfold_root:
  "system.fileExists sys (join path d cf) s = (False, s') \<Longrightarrow> dirname path d = d \<Longrightarrow>
   findConfigFile_loop path sys cf d s = Some (None, s')"
  by (subst findConfigFile_loop.simps) simp

lemma loop_unfold_parent:
  "system.fileExists sys (join path d cf) s = (False, s') \<Longrightarrow> dirname path d \<noteq> d \<Longrightarrow>
   findConfigFile_loop path sys cf d s = findConfigFile_loop path sys cf (dirname path d) s'"
  by (subst findConfigFile_loop.simps) simp

lemma probes_Suc:
  "probes path cf d (Suc n) = FileExists (join path d cf) # probes path cf (dirname path d) n"
  unfolding probes_def
  by (simp add: upt_rec[of 0] map_Suc_upt[symmetric] del: upt_Suc)

lemma recording_fileExists [simp]:
  "system.fileExists (recording_sys fs) p calls = (fs_exists fs p, calls @ [FileExists p])"
  by (simp add: recording_sys_def)

lemma recording_readFile [simp]:
  "system.readFile (recording_sys fs) p calls = (fs_read fs p, calls @ [ReadFile p])"
  by (simp add: recording_sys_def)

lemma recording_readDirectory [simp]:
  "system.readDirectory (recording_sys fs) d exts rest calls
     = (fs_list fs d exts rest, calls @ [ReadDirectory d exts rest])"
  by (simp add: recording_sys_def)

lemma loop_climb:
  "(\<And>m. m < n \<Longrightarrow> \<not> fs_exists fs (join path (ancestor path d m) cf)) \<Longrightarrow>
   (\<And>m. m < n \<Longrightarrow> dirname path (ancestor path d m) \<noteq> ancestor path d m) \<Longrightarrow>
   findConfigFile_loop path (recording_sys fs) cf d calls
     = findConfigFile_loop path (recording_sys fs) cf (ancestor path d n) (calls @ probes path cf d n)"
proof (induction n arbitrary: d calls)
  case 0
  show ?case by (simp add: probes_def)
next
  case (Suc n)
  have no: "\<not> fs_exists fs (join path d cf)" using Suc.prems(1)[of 0] by simp
  have up: "dirname path d \<noteq> d" using Suc.prems(2)[of 0] by simp
  have step: "findConfigFile_loop path (recording_sys fs) cf d calls
      = findConfigFile_loop path (recording_sys fs) cf (dirname path d) (calls @ [FileExists (join path d cf)])"
    by (rule loop_unfold_parent) (simp_all add: no up)
  have "findConfigFile_loop path (recording_sys fs) cf (dirname path d) (calls @ [FileExists (join path d cf)])
      = findConfigFile_loop path (recording_sys fs) cf (ancestor path (dirname path d) n)
          ((calls @ [FileExists (join path d cf)]) @ probes path cf (dirname path d) n)"
  proof (rule Suc.IH)
    fix m assume "m < n"
    then show "\<not> fs_exists fs (join path (ancestor path (dirname path d) m) cf)"
      using Suc.prems(1)[of "Suc m"] by simp
  next
    fix m assume "m < n"
    then show "dirname path (ancestor path (dirname path d) m) \<noteq> ancestor path (dirname path d) m"
      using Suc.prems(2)[of "Suc m"] by simp
  qed
  with step show ?case by (simp add: probes_Suc)
qed

lemma ancestor_fixed:
  "dirname path (ancestor path d k) = ancestor path d k \<Longrightarrow> ancestor path d (k + j) = ancestor path d k"
proof (induction k arbitrary: d)
  case 0
  then show ?case by (induction j) simp_all
next
  case (Suc k)
  then show ?case by simp
qed

lemma nearest_before_root:
  assumes ex: "fs_exists fs (join path (ancestor path d n) cf)"
    and none: "\<And>m. m < n \<Longrightarrow> \<not> fs_exists fs (join path (ancestor path d m) cf)"
    and "m < n"
  shows "dirname path (ancestor path d m) \<noteq> ancestor path d m"
proof
  assume "dirname path (ancestor path d m) = ancestor path d m"
  then have "ancestor path d (m + (n - m)) = ancestor path d m" by (rule ancestor_fixed)
  with \<open>m < n\<close> have "ancestor path d n = ancestor path d m" by simp
  with ex none[OF \<open>m < n\<close>] show False by simp
qed

lemma measure_returns:
  fixes f :: "string \<Rightarrow> nat"
  assumes dec: "\<And>d. dirname path d \<noteq> d \<Longrightarrow> f (dirname path d) < f d"
  shows "\<exists>r. findConfigFile_loop path sys cf d s = Some r"
proof (induction "f d" arbitrary: d s rule: less_induct)
  case less
  obtain found s' where fe: "system.fileExists sys (join path d cf) s = (found, s')"
    by (cases "system.fileExists sys (join path d cf) s")
  show ?case
  proof (cases found)
    case True
    with fe show ?thesis by (simp add: loop_unfold_found)
  next
    case False
    show ?thesis
    proof (cases "dirname path d = d")
      case True
      with fe False show ?thesis by (simp add: loop_unfold_root)
    next
      case up: False
      from dec[OF up] have "\<exists>r. findConfigFile_loop path sys cf (dirname path d) s' = Some r"
        by (rule less)
      with fe False up show ?thesis by (simp add: loop_unfold_parent)
    qed
  qed
qed

lemma dropWhile_shorter:
  "xs \<noteq> [] \<Longrightarrow> P (hd xs) \<Longrightarrow> length (dropWhile P xs) < length xs"
  by (cases xs) (simp_all add: le_imp_less_Suc length_dropWhile_le)

lemma posix_dirname_unfold:
  "d \<noteq> [] \<Longrightarrow> r = dropWhile (\<lambda>c. c \<noteq> slash) (dropWhile (\<lambda>c. c = slash) (rev (tl d))) \<Longrightarrow>
   posix_dirname d =
     (if r = [] then (if hd d = slash then ''/'' else ''.'')
      else if hd d = slash \<and> length r = 1 then ''//''
      else take (length r) d)"
  unfolding posix_dirname_def Let_def by (simp only: if_False)

lemma posix_dirname_cases:
  "posix_dirname d = ''.'' \<or> posix_dirname d = ''/'' \<or> length (posix_dirname d) < length d"
proof (cases "d = []")
  case True
  then show ?thesis by (simp add: posix_dirname_def)
next
  case False
  define r1 where "r1 = dropWhile (\<lambda>c. c = slash) (rev (tl d))"
  define r where "r = dropWhile (\<lambda>c. c \<noteq> slash) r1"
  have pd: "posix_dirname d =
     (if r = [] then (if hd d = slash then ''/'' else ''.'')
      else if hd d = slash \<and> length r = 1 then ''//''
      else take (length r) d)"
    using False by (rule posix_dirname_unfold) (simp only: r_def r1_def)
  show ?thesis
  proof (cases "r = []")
    case True
    with pd have "posix_dirname d = ''/'' \<or> posix_dirname d = ''.''"
      by (simp only: if_True split: if_split) blast
    then show ?thesis by blast
  next
    case nonempty: False
    then have r1: "r1 \<noteq> []" unfolding r_def by (cases r1) simp_all
    have "hd r1 \<noteq> slash"
      using hd_dropWhile[of "\<lambda>c. c = slash" "rev (tl d)"] r1 unfolding r1_def by blast
    with r1 have "length r < length r1" unfolding r_def by (rule dropWhile_shorter)
    also have "length r1 \<le> length (rev (tl d))" unfolding r1_def by (rule length_dropWhile_le)
    finally have "length r < length (tl d)" by simp
    then have lt: "Suc (length r) < length d" by simp
    have two: "length ''//'' = Suc (Suc 0)" by simp
    have "1 \<le> length r" using nonempty by (cases r) simp_all
    with lt have a: "length ''//'' < length d" unfolding two by linarith
    have b: "length (take (length r) d) < length d" using lt by simp
    from pd nonempty have "posix_dirname d = ''//'' \<or> posix_dirname d = take (length r) d"
      by (simp only: if_False split: if_split) blast
    then show ?thesis
    proof
      assume "posix_dirname d = ''//''"
      with a show ?thesis by (simp only:) simp
    next
      assume "posix_dirname d = take (length r) d"
      with b show ?thesis by (simp only:) simp
    qed
  qed
qed

lemma posix_dirname_dot [simp]: "posix_dirname ''.'' = ''.''"
  by (simp add: posix_dirname_def slash_def)

lemma posix_dirname_root [simp]: "posix_dirname ''/'' = ''/''"
  by (simp add: posix_dirname_def slash_def)

lemma posix_climb_decreases:
  "posix_dirname d \<noteq> d \<Longrightarrow> climb_measure (posix_dirname d) < climb_measure d"
  using posix_dirname_cases[of d] by (auto simp: climb_measure_def)

lemma posix_loop_returns:
  "\<exists>r. findConfigFile_loop (posix cwd) sys cf d s = Some r"
  by (rule measure_returns[where f = climb_measure]) (simp add: posix_def posix_climb_decreases)

section \<open>Steps of the functions\<close>

lemma customExtensions_fold:
  "foldl (customExtensions_step path strings transformFileName extensions) acc allFiles
     = acc @ discovered_extensions path strings transformFileName extensions allFiles"
  by (induction allFiles arbitrary: acc)
     (simp_all add: discovered_extensions_def customExtensions_step_def Let_def)

lemma object_assign_two:
  "object_assign fmempty [Some a, Some b] = a ++\<^sub>f b"
  by (simp add: object_assign_def)

lemma object_assign_undefined_first:
  "object_assign fmempty [None, Some b] = b"
  by (simp add: object_assign_def)

lemma getConfigFile_stages:
  assumes "findConfigFile path (compiler_sys compiler) (dirname path (resourcePath loader))
             (loaderOptions_configFile loaderOptions) s = Some (found, s1)"
    and "getConfigFile_load utils compiler loader loaderOptions compilerCompatible
             compilerDetailsLogMessage found s1 = (loaded, loadError, logged, s2)"
  shows "getConfigFile path utils compiler loader loaderOptions compilerCompatible
             compilerDetailsLogMessage s
         = Some (case getConfigFile_merge loaded loadError loaderOptions of
                   Inl exn \<Rightarrow> Inl exn
                 | Inr merged \<Rightarrow>
                     Inr \<lparr> returned_configFilePath = found, returned_configFile = merged,
                           returned_configFileError = loadError \<rparr>,
                 logged, s2)"
  using assms by (simp add: getConfigFile_def split: sum.split)

lemma relative_not_posix_absolute:
  "matches_relative_pattern configFile \<Longrightarrow> \<not> posix_isAbsolute configFile"
  by (cases configFile rule: matches_relative_pattern.cases)
     (auto simp: posix_isAbsolute_def slash_def)

section \<open>The examples evaluated\<close>

lemma example_dirname: "dirname (posix ''/'') (resourcePath example_loader) = ''/a/b''"
  by code_simp

lemma example_reference:
  "loaderOptions_configFile (example_options callerOptions rules) = ''tsconfig.json''"
  by (simp add: example_options_def)

lemma example_paths:
  "posix_join ''/a/b'' ''tsconfig.json'' = ''/a/b/tsconfig.json''"
  "posix_join ''/a'' ''tsconfig.json'' = ''/a/tsconfig.json''"
  "posix_join ''/'' ''tsconfig.json'' = ''/tsconfig.json''"
  "posix_dirname ''/a/b'' = ''/a''"
  "posix_dirname ''/a'' = ''/''"
  "posix_isAbsolute ''tsconfig.json'' = False"
  "matches_relative_pattern ''tsconfig.json'' = False"
  by code_simp+

lemma example_find_found:
  "findConfigFile (posix ''/'') (recording_sys (example_fs [''/a/tsconfig.json'']))
      ''/a/b'' ''tsconfig.json'' []
     = Some (Some ''/a/tsconfig.json'',
             [FileExists ''/a/b/tsconfig.json'', FileExists ''/a/tsconfig.json''])"
  apply (simp add: findConfigFile_def posix_def example_paths)
  apply (subst findConfigFile_loop.simps)
  apply (simp add: example_paths example_fs_def Let_def)
  apply (subst findConfigFile_loop.simps)
  apply (simp add: example_paths example_fs_def Let_def)
  done

lemma example_find_absent:
  "findConfigFile (posix ''/'') (recording_sys (example_fs []))
      ''/a/b'' ''tsconfig.json'' []
     = Some (None,
             [FileExists ''/a/b/tsconfig.json'', FileExists ''/a/tsconfig.json'',
              FileExists ''/tsconfig.json''])"
  apply (simp add: findConfigFile_def posix_def example_paths)
  apply (subst findConfigFile_loop.simps)
  apply (simp add: example_paths example_fs_def Let_def)
  apply (subst findConfigFile_loop.simps)
  apply (simp add: example_paths example_fs_def Let_def)
  apply (subst findConfigFile_loop.simps)
  apply (simp add: example_paths example_fs_def Let_def)
  done

lemma example_compiler_sys [simp]:
  "compiler_sys (example_compiler v fs table) = recording_sys fs"
  by (simp add: example_compiler_def)

lemma example_find_in_compiler:
  "findConfigFile (posix ''/'') (compiler_sys (example_compiler v (example_fs [''/a/tsconfig.json'']) table))
      (dirname (posix ''/'') (resourcePath example_loader))
      (loaderOptions_configFile (example_options callerOptions rules)) []
     = Some (Some ''/a/tsconfig.json'',
             [FileExists ''/a/b/tsconfig.json'', FileExists ''/a/tsconfig.json''])"
  by (simp only: example_compiler_sys example_dirname example_reference example_find_found)

lemma example_absent_in_compiler:
  "findConfigFile (posix ''/'') (compiler_sys (example_compiler v (example_fs []) table))
      (dirname (posix ''/'') (resourcePath example_loader))
      (loaderOptions_configFile (example_options callerOptions rules)) []
     = Some (None,
             [FileExists ''/a/b/tsconfig.json'', FileExists ''/a/tsconfig.json'',
              FileExists ''/tsconfig.json''])"
  by (simp only: example_compiler_sys example_dirname example_reference example_find_absent)

lemma example_read:
  "readConfigFile (example_compiler v fs table) fileName
      (system.readFile (recording_sys fs)) calls
     = (table fileName, calls @ [ReadFile fileName])"
  by (simp add: example_compiler_def)

lemma merged_example:
  "file_options ++\<^sub>f caller_options = fmap_of_list [(''a'', JNum 1), (''b'', JNum 3), (''c'', JNum 4)]"
  by code_simp

lemma example_versions:
  "gte example_semver ''3.5.0'' ''3.5.0''"
  "gte example_semver ''3.7.2'' ''3.5.0''"
  "\<not> gte example_semver ''3.4.5'' ''3.5.0''"
  "\<not> gte example_semver ''3.5.0-rc'' ''3.5.0''"
  by code_simp+

lemma example_parse:
  "parseJsonConfigFileContent (example_compiler v (example_fs [''/a/tsconfig.json'']) table)
       (config parsed_file)
       (getSuffixAppendingParseConfigHost (posix ''/'') ascii_strings (example_utils [])
          (compiler_sys (example_compiler v (example_fs [''/a/tsconfig.json'']) table))
          (example_options caller_options []))
       ''/a'' []
     = (\<lparr> options = file_options, fileNames = [], errors = [] \<rparr>,
        [ReadDirectory ''/a'' (Some [''.ts'', ''.tsx'', ''.d.ts'']) []])"
proof -
  have l: "fs_list (example_fs [''/a/tsconfig.json'']) ''/a'' (Some [''.ts'', ''.tsx'', ''.d.ts'']) [] = []"
    by code_simp
  show ?thesis
    by (simp add: example_compiler_def getSuffixAppendingParseConfigHost_def sys_as_host_def
          example_options_def parsed_file_def l)
qed

lemma example_parse_default:
  "parseJsonConfigFileContent (example_compiler v (example_fs []) table)
       (Some \<lparr> compilerOptions = Some caller_options, files = Some [], otherProperties = fmempty \<rparr>)
       (getSuffixAppendingParseConfigHost (posix ''/'') ascii_strings (example_utils [])
          (recording_sys (example_fs [])) (example_options caller_options []))
       ''/a'' []
     = (\<lparr> options = caller_options, fileNames = [], errors = [] \<rparr>,
        [ReadDirectory ''/a'' (Some [''.ts'', ''.tsx'', ''.d.ts'']) []])"
proof -
  have l: "fs_list (example_fs []) ''/a'' (Some [''.ts'', ''.tsx'', ''.d.ts'']) [] = []"
    by code_simp
  show ?thesis
    by (simp add: example_compiler_def getSuffixAppendingParseConfigHost_def sys_as_host_def
          example_options_def l)
qed

section \<open>Locating the file\<close>

text \<open>
  Claim C6. For an absolute reference \<open>findConfigFile\<close> returns the reference when the
  system reports that it exists and the absence value otherwise; for a reference that
  is not absolute and matches the relative pattern it resolves the reference against the
  request directory and returns the resolved path exactly when that path exists. In
  both cases the function returns (the result is \<open>Some\<close>, and the function has no
  error result), and the state of the system afterwards is the state after that single
  \<open>fileExists\<close> call: one existence check and no directory walk. With Node's POSIX
  functions a reference that matches the relative pattern is never absolute, so there
  the second case needs the pattern alone.
\<close>

theorem findConfigFile_by_path:
  "(isAbsolute path configFile \<longrightarrow>
      findConfigFile path sys requestDirPath configFile s =
        Some (if fst (system.fileExists sys configFile s) then Some configFile else None,
              snd (system.fileExists sys configFile s)))
   \<and> (\<not> isAbsolute path configFile \<and> matches_relative_pattern configFile \<longrightarrow>
      findConfigFile path sys requestDirPath configFile s =
        Some (if fst (system.fileExists sys (resolve path requestDirPath configFile) s)
              then Some (resolve path requestDirPath configFile) else None,
              snd (system.fileExists sys (resolve path requestDirPath configFile) s)))
   \<and> (matches_relative_pattern configFile \<longrightarrow>
      findConfigFile (posix cwd) sys requestDirPath configFile s =
        Some (if fst (system.fileExists sys (posix_resolve cwd requestDirPath configFile) s)
              then Some (posix_resolve cwd requestDirPath configFile) else None,
              snd (system.fileExists sys (posix_resolve cwd requestDirPath configFile) s)))"
  by (simp add: findConfigFile_def Let_def posix_def relative_not_posix_absolute split: prod.split)

theorem findConfigFile_by_path_witness:
  "findConfigFile (posix ''/home/u'') (recording_sys (example_fs [''/a/shared/tsconfig.base.json'']))
      ''/a/b'' ''/etc/missing.json'' []
     = Some (None, [FileExists ''/etc/missing.json''])
   \<and> findConfigFile (posix ''/home/u'') (recording_sys (example_fs [''/a/shared/tsconfig.base.json'']))
      ''/a/b'' ''../shared/tsconfig.base.json'' []
     = Some (Some ''/a/shared/tsconfig.base.json'', [FileExists ''/a/shared/tsconfig.base.json''])
   \<and> findConfigFile (posix ''/home/u'') (recording_sys (example_fs [''/a/shared/tsconfig.base.json'']))
      ''/a/b'' ''./tsconfig.json'' []
     = Some (None, [FileExists ''/a/b/tsconfig.json''])"
proof -
  let ?path = "posix ''/home/u''"
  let ?sys = "recording_sys (example_fs [''/a/shared/tsconfig.base.json''])"
  have abs: "isAbsolute ?path ''/etc/missing.json''" by code_simp
  have rel1: "\<not> isAbsolute ?path ''../shared/tsconfig.base.json'' \<and> matches_relative_pattern ''../shared/tsconfig.base.json''"
    by code_simp
  have rel2: "\<not> isAbsolute ?path ''./tsconfig.json'' \<and> matches_relative_pattern ''./tsconfig.json''"
    by code_simp
  have r1: "resolve ?path ''/a/b'' ''../shared/tsconfig.base.json'' = ''/a/shared/tsconfig.base.json''"
    by code_simp
  have r2: "resolve ?path ''/a/b'' ''./tsconfig.json'' = ''/a/b/tsconfig.json''"
    by code_simp
  note t = findConfigFile_by_path[of ?path _ ?sys "''/a/b''" "[]"]
  have a: "findConfigFile ?path ?sys ''/a/b'' ''/etc/missing.json'' [] = Some (None, [FileExists ''/etc/missing.json''])"
    unfolding t[THEN conjunct1, THEN mp, OF abs] by (simp add: example_fs_def)
  have b: "findConfigFile ?path ?sys ''/a/b'' ''../shared/tsconfig.base.json'' []
     = Some (Some ''/a/shared/tsconfig.base.json'', [FileExists ''/a/shared/tsconfig.base.json''])"
    unfolding t[THEN conjunct2, THEN conjunct1, THEN mp, OF rel1] r1 by (simp add: example_fs_def)
  have c: "findConfigFile ?path ?sys ''/a/b'' ''./tsconfig.json'' [] = Some (None, [FileExists ''/a/b/tsconfig.json''])"
    unfolding t[THEN conjunct2, THEN conjunct1, THEN mp, OF rel2] r2 by (simp add: example_fs_def)
  from a b c show ?thesis by blast
qed

text \<open>
  Claim C1. For a reference that is neither absolute nor matches the relative pattern,
  on a read-only file system: when the file exists at the \<open>n\<close>-th ancestor of the
  request directory and at no nearer one, \<open>findConfigFile\<close> returns the path joined
  at that ancestor, after checking \<open>join(dir, reference)\<close> at each level from the
  request directory up to it, in that order; when the \<open>n\<close>-th ancestor is the first
  directory that is its own parent (the root) and the file exists at no level up to and
  including it, \<open>findConfigFile\<close> returns the absence value after checking every
  level.
\<close>

theorem findConfigFile_by_name:
  assumes "\<not> isAbsolute path configFile" and "\<not> matches_relative_pattern configFile"
  shows "(fs_exists fs (join path (ancestor path d n) configFile)
          \<and> (\<forall>m<n. \<not> fs_exists fs (join path (ancestor path d m) configFile)) \<longrightarrow>
          findConfigFile path (recording_sys fs) d configFile calls
            = Some (Some (join path (ancestor path d n) configFile), calls @ probes path configFile d (Suc n)))
       \<and> (dirname path (ancestor path d n) = ancestor path d n
          \<and> (\<forall>m<n. dirname path (ancestor path d m) \<noteq> ancestor path d m)
          \<and> (\<forall>m\<le>n. \<not> fs_exists fs (join path (ancestor path d m) configFile)) \<longrightarrow>
          findConfigFile path (recording_sys fs) d configFile calls
            = Some (None, calls @ probes path configFile d (Suc n)))"
proof -
  have loop: "findConfigFile path (recording_sys fs) d configFile calls
      = findConfigFile_loop path (recording_sys fs) configFile d calls"
    using assms by (simp add: findConfigFile_def)
  have last: "calls @ probes path configFile d (Suc n)
      = (calls @ probes path configFile d n) @ [FileExists (join path (ancestor path d n) configFile)]"
    by (simp add: probes_def)
  show ?thesis
  proof (intro conjI impI)
    assume a: "fs_exists fs (join path (ancestor path d n) configFile)
          \<and> (\<forall>m<n. \<not> fs_exists fs (join path (ancestor path d m) configFile))"
    then have none: "\<And>m. m < n \<Longrightarrow> \<not> fs_exists fs (join path (ancestor path d m) configFile)"
      by blast
    have up: "\<And>m. m < n \<Longrightarrow> dirname path (ancestor path d m) \<noteq> ancestor path d m"
      using a none by (rule nearest_before_root[OF conjunct1])
    have "findConfigFile_loop path (recording_sys fs) configFile d calls
        = findConfigFile_loop path (recording_sys fs) configFile (ancestor path d n)
            (calls @ probes path configFile d n)"
      using none up by (rule loop_climb)
    also have "\<dots> = Some (Some (join path (ancestor path d n) configFile),
        (calls @ probes path configFile d n) @ [FileExists (join path (ancestor path d n) configFile)])"
      by (rule loop_unfold_found) (simp add: a)
    finally show "findConfigFile path (recording_sys fs) d configFile calls
            = Some (Some (join path (ancestor path d n) configFile), calls @ probes path configFile d (Suc n))"
      by (simp only: loop last)
  next
    assume a: "dirname path (ancestor path d n) = ancestor path d n
          \<and> (\<forall>m<n. dirname path (ancestor path d m) \<noteq> ancestor path d m)
          \<and> (\<forall>m\<le>n. \<not> fs_exists fs (join path (ancestor path d m) configFile))"
    then have none: "\<And>m. m < n \<Longrightarrow> \<not> fs_exists fs (join path (ancestor path d m) configFile)"
      by simp
    have up: "\<And>m. m < n \<Longrightarrow> dirname path (ancestor path d m) \<noteq> ancestor path d m"
      using a by blast
    have "findConfigFile_loop path (recording_sys fs) configFile d calls
        = findConfigFile_loop path (recording_sys fs) configFile (ancestor path d n)
            (calls @ probes path configFile d n)"
      using none up by (rule loop_climb)
    also have "\<dots> = Some (None,
        (calls @ probes path configFile d n) @ [FileExists (join path (ancestor path d n) configFile)])"
      by (rule loop_unfold_root) (use a in simp_all)
    finally show "findConfigFile path (recording_sys fs) d configFile calls
            = Some (None, calls @ probes path configFile d (Suc n))"
      by (simp only: loop last)
  qed
qed

theorem findConfigFile_by_name_witness:
  "findConfigFile (posix ''/home/u'') (recording_sys (example_fs [''/a/tsconfig.json'', ''/tsconfig.json'']))
      ''/a/b/c'' ''tsconfig.json'' []
     = Some (Some ''/a/tsconfig.json'',
             [FileExists ''/a/b/c/tsconfig.json'', FileExists ''/a/b/tsconfig.json'',
              FileExists ''/a/tsconfig.json''])
   \<and> findConfigFile (posix ''/home/u'') (recording_sys (example_fs [''/x/tsconfig.json'']))
      ''/a'' ''tsconfig.json'' []
     = Some (None, [FileExists ''/a/tsconfig.json'', FileExists ''/tsconfig.json''])"
proof -
  let ?path = "posix ''/home/u''"
  let ?cf = "''tsconfig.json''"
  have bare: "\<not> isAbsolute ?path ?cf" "\<not> matches_relative_pattern ?cf"
    by code_simp+
  note t = findConfigFile_by_name[OF bare]
  have j0: "join ?path (ancestor ?path ''/a/b/c'' 0) ?cf = ''/a/b/c/tsconfig.json''" by code_simp
  have j1: "join ?path (ancestor ?path ''/a/b/c'' (Suc 0)) ?cf = ''/a/b/tsconfig.json''" by code_simp
  have j2: "join ?path (ancestor ?path ''/a/b/c'' (Suc (Suc 0))) ?cf = ''/a/tsconfig.json''" by code_simp
  have p3: "probes ?path ?cf ''/a/b/c'' (Suc (Suc (Suc 0)))
      = [FileExists ''/a/b/c/tsconfig.json'', FileExists ''/a/b/tsconfig.json'', FileExists ''/a/tsconfig.json'']"
    by code_simp
  have pre1: "fs_exists (example_fs [''/a/tsconfig.json'', ''/tsconfig.json''])
         (join ?path (ancestor ?path ''/a/b/c'' (Suc (Suc 0))) ?cf)
       \<and> (\<forall>m<Suc (Suc 0). \<not> fs_exists (example_fs [''/a/tsconfig.json'', ''/tsconfig.json''])
              (join ?path (ancestor ?path ''/a/b/c'' m) ?cf))"
    unfolding All_less_Suc j0 j1 j2 by (simp add: example_fs_def)
  have a: "findConfigFile ?path (recording_sys (example_fs [''/a/tsconfig.json'', ''/tsconfig.json'']))
      ''/a/b/c'' ?cf []
     = Some (Some ''/a/tsconfig.json'',
             [FileExists ''/a/b/c/tsconfig.json'', FileExists ''/a/b/tsconfig.json'',
              FileExists ''/a/tsconfig.json''])"
    using t[THEN conjunct1, THEN mp, OF pre1, of "[]"] unfolding j2 p3 by simp
  have k0: "join ?path (ancestor ?path ''/a'' 0) ?cf = ''/a/tsconfig.json''" by code_simp
  have k1: "join ?path (ancestor ?path ''/a'' (Suc 0)) ?cf = ''/tsconfig.json''" by code_simp
  have d0: "dirname ?path (ancestor ?path ''/a'' 0) \<noteq> ancestor ?path ''/a'' 0" by code_simp
  have d1: "dirname ?path (ancestor ?path ''/a'' (Suc 0)) = ancestor ?path ''/a'' (Suc 0)" by code_simp
  have q2: "probes ?path ?cf ''/a'' (Suc (Suc 0))
      = [FileExists ''/a/tsconfig.json'', FileExists ''/tsconfig.json'']"
    by code_simp
  have pre2: "dirname ?path (ancestor ?path ''/a'' (Suc 0)) = ancestor ?path ''/a'' (Suc 0)
       \<and> (\<forall>m<Suc 0. dirname ?path (ancestor ?path ''/a'' m) \<noteq> ancestor ?path ''/a'' m)
       \<and> (\<forall>m\<le>Suc 0. \<not> fs_exists (example_fs [''/x/tsconfig.json''])
              (join ?path (ancestor ?path ''/a'' m) ?cf))"
  proof (intro conjI allI impI)
    show "dirname ?path (ancestor ?path ''/a'' (Suc 0)) = ancestor ?path ''/a'' (Suc 0)" by (rule d1)
  next
    fix m :: nat assume "m < Suc 0"
    then have "m = 0" by simp
    show "dirname ?path (ancestor ?path ''/a'' m) \<noteq> ancestor ?path ''/a'' m"
      unfolding \<open>m = 0\<close> by (rule d0)
  next
    fix m :: nat assume "m \<le> Suc 0"
    then have "m = 0 \<or> m = Suc 0" by arith
    then show "\<not> fs_exists (example_fs [''/x/tsconfig.json'']) (join ?path (ancestor ?path ''/a'' m) ?cf)"
    proof
      assume "m = 0"
      then show ?thesis unfolding \<open>m = 0\<close> k0 by (simp add: example_fs_def)
    next
      assume "m = Suc 0"
      then show ?thesis unfolding \<open>m = Suc 0\<close> k1 by (simp add: example_fs_def)
    qed
  qed
  have b: "findConfigFile ?path (recording_sys (example_fs [''/x/tsconfig.json''])) ''/a'' ?cf []
     = Some (None, [FileExists ''/a/tsconfig.json'', FileExists ''/tsconfig.json''])"
    using t[THEN conjunct2, THEN mp, OF pre2, of "[]"] unfolding q2 by simp
  from a b show ?thesis by (rule conjI)
qed

text \<open>
  Claim C9. With Node's POSIX \<^verbatim>\<open>path.dirname\<close>, for every request directory, every
  reference and every system (whatever its answers are), the chain of parents reaches a
  directory that is its own parent, the loop returns, and so does \<open>findConfigFile\<close>.
  The loop has no bound or deadline: it is the partial function above, and the result
  \<open>Some\<close> is what is proved.
\<close>

theorem findConfigFile_walk_returns:
  "(\<exists>n. dirname (posix cwd) (ancestor (posix cwd) requestDirPath n) = ancestor (posix cwd) requestDirPath n)
   \<and> (\<exists>r. findConfigFile_loop (posix cwd) sys configFile requestDirPath s = Some r)
   \<and> (\<exists>r. findConfigFile (posix cwd) sys requestDirPath configFile s = Some r)"
proof (intro conjI)
  show "\<exists>n. dirname (posix cwd) (ancestor (posix cwd) requestDirPath n) = ancestor (posix cwd) requestDirPath n"
  proof (induction "climb_measure requestDirPath" arbitrary: requestDirPath rule: less_induct)
    case less
    show ?case
    proof (cases "posix_dirname requestDirPath = requestDirPath")
      case True
      then have "dirname (posix cwd) (ancestor (posix cwd) requestDirPath 0) = ancestor (posix cwd) requestDirPath 0"
        by (simp add: posix_def)
      then show ?thesis ..
    next
      case False
      from posix_climb_decreases[OF False]
      obtain n where "dirname (posix cwd) (ancestor (posix cwd) (posix_dirname requestDirPath) n)
          = ancestor (posix cwd) (posix_dirname requestDirPath) n"
        using less by blast
      then have "dirname (posix cwd) (ancestor (posix cwd) requestDirPath (Suc n))
          = ancestor (posix cwd) requestDirPath (Suc n)"
        by (simp add: posix_def)
      then show ?thesis ..
    qed
  qed
  show "\<exists>r. findConfigFile_loop (posix cwd) sys configFile requestDirPath s = Some r"
    by (rule posix_loop_returns)
  then show "\<exists>r. findConfigFile (posix cwd) sys requestDirPath configFile s = Some r"
    by (simp add: findConfigFile_def Let_def split: prod.split)
qed

section \<open>Loading and merging\<close>

text \<open>
  Claim C2. When the load left no error and the file's configuration has the compiler
  options \<open>fileOptions\<close>, \<open>getConfigFile\<close> returns the configuration with its
  compiler options replaced by a mapping whose keys are those of the file's options and
  of the loader's, where a key of the loader's options has the loader's value and every
  other key the file's: a merge of one level, values taken whole. The example merges
  \<^verbatim>\<open>{a: 1, b: 2}\<close> and \<^verbatim>\<open>{b: 3, c: 4}\<close> to \<^verbatim>\<open>{a: 1, b: 3, c: 4}\<close>.
\<close>

theorem getConfigFile_merges_caller_over_file:
  assumes find: "findConfigFile path (compiler_sys compiler) (dirname path (resourcePath loader))
                   (loaderOptions_configFile loaderOptions) s = Some (found, s1)"
    and load: "getConfigFile_load utils compiler loader loaderOptions compilerCompatible
                   compilerDetailsLogMessage found s1 = (loaded, None, logged, s2)"
    and cfg: "config loaded = Some c"
    and opts: "compilerOptions c = Some fileOptions"
  shows "\<exists>merged.
           getConfigFile path utils compiler loader loaderOptions compilerCompatible
               compilerDetailsLogMessage s
             = Some (Inr \<lparr> returned_configFilePath = found,
                           returned_configFile =
                             loaded\<lparr> config := Some (c\<lparr> compilerOptions := Some merged \<rparr>) \<rparr>,
                           returned_configFileError = None \<rparr>,
                     logged, s2)
           \<and> fmdom merged = fmdom fileOptions |\<union>| fmdom (loaderOptions_compilerOptions loaderOptions)
           \<and> (\<forall>k. fmlookup merged k
                  = (if k |\<in>| fmdom (loaderOptions_compilerOptions loaderOptions)
                     then fmlookup (loaderOptions_compilerOptions loaderOptions) k
                     else fmlookup fileOptions k))"
proof -
  let ?merged = "fileOptions ++\<^sub>f loaderOptions_compilerOptions loaderOptions"
  have "getConfigFile_merge loaded None loaderOptions
      = Inr (loaded\<lparr> config := Some (c\<lparr> compilerOptions := Some ?merged \<rparr>) \<rparr>)"
    by (simp add: getConfigFile_merge_def cfg opts object_assign_two)
  with getConfigFile_stages[OF find load]
  have "getConfigFile path utils compiler loader loaderOptions compilerCompatible
               compilerDetailsLogMessage s
             = Some (Inr \<lparr> returned_configFilePath = found,
                           returned_configFile =
                             loaded\<lparr> config := Some (c\<lparr> compilerOptions := Some ?merged \<rparr>) \<rparr>,
                           returned_configFileError = None \<rparr>,
                     logged, s2)"
    by simp
  moreover have "fmdom ?merged = fmdom fileOptions |\<union>| fmdom (loaderOptions_compilerOptions loaderOptions)"
    by simp
  moreover have "\<forall>k. fmlookup ?merged k
                  = (if k |\<in>| fmdom (loaderOptions_compilerOptions loaderOptions)
                     then fmlookup (loaderOptions_compilerOptions loaderOptions) k
                     else fmlookup fileOptions k)"
    by simp
  ultimately show ?thesis by blast
qed

theorem getConfigFile_merges_caller_over_file_witness:
  "getConfigFile (posix ''/'') (example_utils [])
      (example_compiler ''3.5.0'' (example_fs [''/a/tsconfig.json'']) (\<lambda>fileName. parsed_file))
      example_loader (example_options caller_options []) False ''typescript'' []
     = Some (Inr \<lparr> returned_configFilePath = Some ''/a/tsconfig.json'',
                   returned_configFile =
                     \<lparr> config = Some \<lparr> compilerOptions =
                                         Some (fmap_of_list [(''a'', JNum 1), (''b'', JNum 3), (''c'', JNum 4)]),
                                       files = None, otherProperties = fmempty \<rparr>,
                       error = None \<rparr>,
                   returned_configFileError = None \<rparr>,
             [''ts-loader: Using config file at /a/tsconfig.json''],
             [FileExists ''/a/b/tsconfig.json'', FileExists ''/a/tsconfig.json'',
              ReadFile ''/a/tsconfig.json''])"
proof -
  let ?compiler = "example_compiler ''3.5.0'' (example_fs [''/a/tsconfig.json'']) (\<lambda>fileName. parsed_file)"
  let ?lo = "example_options caller_options []"
  let ?c = "\<lparr> compilerOptions = Some file_options, files = None, otherProperties = fmempty \<rparr>"
  have load: "getConfigFile_load (example_utils []) ?compiler example_loader ?lo False ''typescript''
        (Some ''/a/tsconfig.json'') [FileExists ''/a/b/tsconfig.json'', FileExists ''/a/tsconfig.json'']
      = (parsed_file, None, [''ts-loader: Using config file at /a/tsconfig.json''],
         [FileExists ''/a/b/tsconfig.json'', FileExists ''/a/tsconfig.json'', ReadFile ''/a/tsconfig.json''])"
    unfolding getConfigFile_load_def by (simp add: example_read parsed_file_def)
  have cfg: "config parsed_file = Some ?c" by (simp add: parsed_file_def)
  have opts: "compilerOptions ?c = Some file_options" by simp
  from getConfigFile_merges_caller_over_file[OF example_find_in_compiler load cfg opts]
  obtain merged where
    run: "getConfigFile (posix ''/'') (example_utils []) ?compiler example_loader ?lo False ''typescript'' []
       = Some (Inr \<lparr> returned_configFilePath = Some ''/a/tsconfig.json'',
                     returned_configFile = parsed_file\<lparr> config := Some (?c\<lparr> compilerOptions := Some merged \<rparr>) \<rparr>,
                     returned_configFileError = None \<rparr>,
               [''ts-loader: Using config file at /a/tsconfig.json''],
               [FileExists ''/a/b/tsconfig.json'', FileExists ''/a/tsconfig.json'', ReadFile ''/a/tsconfig.json''])"
    and look: "\<forall>k. fmlookup merged k
                  = (if k |\<in>| fmdom (loaderOptions_compilerOptions ?lo)
                     then fmlookup (loaderOptions_compilerOptions ?lo) k
                     else fmlookup file_options k)"
    by blast
  have "merged = file_options ++\<^sub>f caller_options"
    by (rule fmap_ext) (simp add: look example_options_def)
  then have "merged = fmap_of_list [(''a'', JNum 1), (''b'', JNum 3), (''c'', JNum 4)]"
    by (simp only: merged_example)
  with run show ?thesis by (simp add: parsed_file_def)
qed

text \<open>
  Claim C3, as amended. \<open>getConfigFile\<close> sets the load error exactly when a file was
  found, reading it reported an error and \<open>formatErrors\<close> returned at least one error
  for that diagnostic; the load error is then the first of them, the merge does not
  run, and the configuration returned is the one that was read, without the loader's
  compiler options. In every other case no load error is set.
\<close>

theorem getConfigFile_load_error:
  assumes find: "findConfigFile path (compiler_sys compiler) (dirname path (resourcePath loader))
                   (loaderOptions_configFile loaderOptions) s = Some (found, s1)"
  shows "\<exists>r logged s2.
           getConfigFile path utils compiler loader loaderOptions compilerCompatible
               compilerDetailsLogMessage s = Some (r, logged, s2)
           \<and> (case found of
                 None \<Rightarrow> load_error_of r = None
               | Some p \<Rightarrow>
                   (case error (fst (readConfigFile compiler p
                                       (system.readFile (compiler_sys compiler)) s1)) of
                      None \<Rightarrow> load_error_of r = None
                    | Some e \<Rightarrow>
                        (case formatErrors utils [e] loaderOptions (Some p) (loaderContext loader) of
                           [] \<Rightarrow> load_error_of r = None
                         | w # ws \<Rightarrow>
                             r = Inr \<lparr> returned_configFilePath = Some p,
                                       returned_configFile =
                                         fst (readConfigFile compiler p
                                                (system.readFile (compiler_sys compiler)) s1),
                                       returned_configFileError = Some w \<rparr>)))"
proof -
  obtain loaded loadError logged s2 where
    load: "getConfigFile_load utils compiler loader loaderOptions compilerCompatible
             compilerDetailsLogMessage found s1 = (loaded, loadError, logged, s2)"
    by (metis prod_cases4)
  note run = getConfigFile_stages[OF find load]
  show ?thesis
  proof (cases found)
    case None
    with load have "loadError = None" by (simp add: getConfigFile_load_def)
    with run None show ?thesis
      by (auto simp: load_error_of_def getConfigFile_merge_def split: sum.split option.split)
  next
    case (Some p)
    obtain cf s' where read: "readConfigFile compiler p (system.readFile (compiler_sys compiler)) s1 = (cf, s')"
      by (cases "readConfigFile compiler p (system.readFile (compiler_sys compiler)) s1")
    from load Some read have loaded: "loaded = cf"
      and le: "loadError = (case error cf of
                      Some e \<Rightarrow> element0 (formatErrors utils [e] loaderOptions (Some p) (loaderContext loader))
                    | None \<Rightarrow> None)"
      by (auto simp add: getConfigFile_load_def Let_def)
    show ?thesis
    proof (cases "error cf")
      case None
      with le have "loadError = None" by simp
      with run Some read None show ?thesis
        by (auto simp: load_error_of_def getConfigFile_merge_def split: sum.split option.split)
    next
      case (Some e)
      show ?thesis
      proof (cases "formatErrors utils [e] loaderOptions (Some p) (loaderContext loader)")
        case Nil
        with le Some have "loadError = None" by (simp add: element0_def)
        with run \<open>found = Some p\<close> read Some Nil show ?thesis
          by (auto simp: load_error_of_def getConfigFile_merge_def split: sum.split option.split)
      next
        case (Cons w ws)
        with le Some have "loadError = Some w" by (simp add: element0_def)
        with run \<open>found = Some p\<close> read Some Cons loaded show ?thesis
          by (simp add: getConfigFile_merge_def)
      qed
    qed
  qed
qed

theorem getConfigFile_load_error_witness:
  "map_option fst
     (getConfigFile (posix ''/'') (example_utils [])
        (example_compiler ''3.5.0'' (example_fs [''/a/tsconfig.json'']) (\<lambda>fileName. broken_file))
        example_loader (example_options caller_options []) False ''typescript'' [])
     = Some (Inr \<lparr> returned_configFilePath = Some ''/a/tsconfig.json'',
                   returned_configFile = broken_file,
                   returned_configFileError =
                     Some \<lparr> message = ''comma expected'', errorFile = Some ''/a/tsconfig.json'' \<rparr> \<rparr>)"
proof -
  let ?compiler = "example_compiler ''3.5.0'' (example_fs [''/a/tsconfig.json'']) (\<lambda>fileName. broken_file)"
  let ?lo = "example_options caller_options []"
  from getConfigFile_load_error[OF example_find_in_compiler[of "''3.5.0''" "\<lambda>fileName. broken_file" caller_options "[]"],
      where utils = "example_utils []" and compilerCompatible = False
        and compilerDetailsLogMessage = "''typescript''"]
  obtain r logged s2 where
    run: "getConfigFile (posix ''/'') (example_utils []) ?compiler example_loader ?lo False ''typescript'' []
       = Some (r, logged, s2)"
    and r: "(case Some ''/a/tsconfig.json'' of
                 None \<Rightarrow> load_error_of r = None
               | Some p \<Rightarrow>
                   (case error (fst (readConfigFile ?compiler p
                                       (system.readFile (compiler_sys ?compiler))
                                       [FileExists ''/a/b/tsconfig.json'', FileExists ''/a/tsconfig.json''])) of
                      None \<Rightarrow> load_error_of r = None
                    | Some e \<Rightarrow>
                        (case formatErrors (example_utils []) [e] ?lo (Some p) (loaderContext example_loader) of
                           [] \<Rightarrow> load_error_of r = None
                         | w # ws \<Rightarrow>
                             r = Inr \<lparr> returned_configFilePath = Some p,
                                       returned_configFile =
                                         fst (readConfigFile ?compiler p
                                                (system.readFile (compiler_sys ?compiler))
                                                [FileExists ''/a/b/tsconfig.json'', FileExists ''/a/tsconfig.json'']),
                                       returned_configFileError = Some w \<rparr>)))"
    by blast
  have er: "error broken_file = Some \<lparr> code = 1005, messageText = ''comma expected'' \<rparr>"
    by (simp add: broken_file_def)
  have fe: "formatErrors (example_utils []) [\<lparr> code = 1005, messageText = ''comma expected'' \<rparr>] ?lo
              (Some ''/a/tsconfig.json'') (loaderContext example_loader)
            = [\<lparr> message = ''comma expected'', errorFile = Some ''/a/tsconfig.json'' \<rparr>]"
    by (simp add: example_utils_def)
  from r have "r = Inr \<lparr> returned_configFilePath = Some ''/a/tsconfig.json'',
                   returned_configFile = broken_file,
                   returned_configFileError =
                     Some \<lparr> message = ''comma expected'', errorFile = Some ''/a/tsconfig.json'' \<rparr> \<rparr>"
    by (simp add: example_read er fe)
  with run show ?thesis by simp
qed

text \<open>
  The claim as stated fails where \<open>formatErrors\<close> returns no error for the
  diagnostic of the parse (here its code is among those left out): the file was found
  and its parse reported an error, yet no load error is set and the loader's options
  are merged over the file's.
\<close>

theorem parse_error_ignored_counterexample:
  "getConfigFile (posix ''/'') (example_utils [1005])
      (example_compiler ''3.5.0'' (example_fs [''/a/tsconfig.json'']) (\<lambda>fileName. broken_file))
      example_loader (example_options caller_options []) False ''typescript'' []
     = Some (Inr \<lparr> returned_configFilePath = Some ''/a/tsconfig.json'',
                   returned_configFile =
                     \<lparr> config = Some \<lparr> compilerOptions =
                                         Some (fmap_of_list [(''a'', JNum 1), (''b'', JNum 3), (''c'', JNum 4)]),
                                       files = None, otherProperties = fmempty \<rparr>,
                       error = Some \<lparr> code = 1005, messageText = ''comma expected'' \<rparr> \<rparr>,
                   returned_configFileError = None \<rparr>,
             [''ts-loader: Using config file at /a/tsconfig.json''],
             [FileExists ''/a/b/tsconfig.json'', FileExists ''/a/tsconfig.json'',
              ReadFile ''/a/tsconfig.json''])"
proof -
  let ?compiler = "example_compiler ''3.5.0'' (example_fs [''/a/tsconfig.json'']) (\<lambda>fileName. broken_file)"
  let ?lo = "example_options caller_options []"
  have load: "getConfigFile_load (example_utils [1005]) ?compiler example_loader ?lo False ''typescript''
        (Some ''/a/tsconfig.json'') [FileExists ''/a/b/tsconfig.json'', FileExists ''/a/tsconfig.json'']
      = (broken_file, None, [''ts-loader: Using config file at /a/tsconfig.json''],
         [FileExists ''/a/b/tsconfig.json'', FileExists ''/a/tsconfig.json'', ReadFile ''/a/tsconfig.json''])"
    unfolding getConfigFile_load_def
    by (simp add: example_read) (simp add: broken_file_def example_utils_def element0_def)
  have merge: "getConfigFile_merge broken_file None ?lo
      = Inr \<lparr> config = Some \<lparr> compilerOptions =
                                         Some (fmap_of_list [(''a'', JNum 1), (''b'', JNum 3), (''c'', JNum 4)]),
                                       files = None, otherProperties = fmempty \<rparr>,
                       error = Some \<lparr> code = 1005, messageText = ''comma expected'' \<rparr> \<rparr>"
    by (simp add: getConfigFile_merge_def broken_file_def object_assign_two example_options_def
          merged_example)
  show ?thesis
    unfolding getConfigFile_stages[OF example_find_in_compiler load] merge by simp
qed

text \<open>
  Claim C8, as amended. \<open>getConfigFile\<close> passes one message to \<^verbatim>\<open>log.logInfo\<close> when
  a file was found (naming the file) or when none was found and the compiler is
  compatible (the compiler's details), and none when no file was found and the
  compiler is not compatible; the merge logs nothing.
\<close>

theorem getConfigFile_log_messages:
  assumes find: "findConfigFile path (compiler_sys compiler) (dirname path (resourcePath loader))
                   (loaderOptions_configFile loaderOptions) s = Some (found, s1)"
  shows "\<exists>r logged s2.
           getConfigFile path utils compiler loader loaderOptions compilerCompatible
               compilerDetailsLogMessage s = Some (r, logged, s2)
           \<and> logged =
               (case found of
                  Some p \<Rightarrow>
                    [if compilerCompatible then compilerDetailsLogMessage @ '' and '' @ p
                     else ''ts-loader: Using config file at '' @ p]
                | None \<Rightarrow> (if compilerCompatible then [compilerDetailsLogMessage] else []))
           \<and> length logged = (if found = None \<and> \<not> compilerCompatible then 0 else 1)"
proof -
  obtain loaded loadError logged s2 where
    load: "getConfigFile_load utils compiler loader loaderOptions compilerCompatible
             compilerDetailsLogMessage found s1 = (loaded, loadError, logged, s2)"
    by (metis prod_cases4)
  from load have logged: "logged =
               (case found of
                  Some p \<Rightarrow>
                    [if compilerCompatible then compilerDetailsLogMessage @ '' and '' @ p
                     else ''ts-loader: Using config file at '' @ p]
                | None \<Rightarrow> (if compilerCompatible then [compilerDetailsLogMessage] else []))"
    by (auto simp add: getConfigFile_load_def Let_def split: option.splits prod.splits)
  then have len: "length logged = (if found = None \<and> \<not> compilerCompatible then 0 else 1)"
    by (simp split: option.split)
  from getConfigFile_stages[OF find load] logged len show ?thesis by blast
qed

theorem getConfigFile_log_messages_witness:
  "map_option (\<lambda>run. fst (snd run))
     (getConfigFile (posix ''/'') (example_utils [])
        (example_compiler ''3.5.0'' (example_fs [''/a/tsconfig.json'']) (\<lambda>fileName. parsed_file))
        example_loader (example_options caller_options []) True ''typescript@3.5.0'' [])
     = Some [''typescript@3.5.0 and /a/tsconfig.json'']
   \<and> map_option (\<lambda>run. fst (snd run))
     (getConfigFile (posix ''/'') (example_utils [])
        (example_compiler ''3.5.0'' (example_fs []) (\<lambda>fileName. parsed_file))
        example_loader (example_options caller_options []) True ''typescript@3.5.0'' [])
     = Some [''typescript@3.5.0'']"
proof -
  from getConfigFile_log_messages[OF example_find_in_compiler[of "''3.5.0''" "\<lambda>fileName. parsed_file" caller_options "[]"],
      where utils = "example_utils []" and compilerCompatible = True
        and compilerDetailsLogMessage = "''typescript@3.5.0''"]
  have a: "map_option (\<lambda>run. fst (snd run))
     (getConfigFile (posix ''/'') (example_utils [])
        (example_compiler ''3.5.0'' (example_fs [''/a/tsconfig.json'']) (\<lambda>fileName. parsed_file))
        example_loader (example_options caller_options []) True ''typescript@3.5.0'' [])
     = Some [''typescript@3.5.0 and /a/tsconfig.json'']"
    by auto
  from getConfigFile_log_messages[OF example_absent_in_compiler[of "''3.5.0''" "\<lambda>fileName. parsed_file" caller_options "[]"],
      where utils = "example_utils []" and compilerCompatible = True
        and compilerDetailsLogMessage = "''typescript@3.5.0''"]
  have b: "map_option (\<lambda>run. fst (snd run))
     (getConfigFile (posix ''/'') (example_utils [])
        (example_compiler ''3.5.0'' (example_fs []) (\<lambda>fileName. parsed_file))
        example_loader (example_options caller_options []) True ''typescript@3.5.0'' [])
     = Some [''typescript@3.5.0'']"
    by auto
  from a b show ?thesis by (rule conjI)
qed

text \<open>
  The claim as stated fails when no file is found and the compiler is not compatible:
  nothing is logged.
\<close>

theorem no_file_incompatible_compiler_counterexample:
  "getConfigFile (posix ''/'') (example_utils [])
      (example_compiler ''3.5.0'' (example_fs []) (\<lambda>fileName. parsed_file))
      example_loader (example_options caller_options []) False ''typescript@3.5.0'' []
     = Some (Inr \<lparr> returned_configFilePath = None,
                   returned_configFile =
                     \<lparr> config = Some \<lparr> compilerOptions = Some caller_options, files = Some [],
                                       otherProperties = fmempty \<rparr>,
                       error = None \<rparr>,
                   returned_configFileError = None \<rparr>,
             [],
             [FileExists ''/a/b/tsconfig.json'', FileExists ''/a/tsconfig.json'',
              FileExists ''/tsconfig.json''])"
proof -
  let ?compiler = "example_compiler ''3.5.0'' (example_fs []) (\<lambda>fileName. parsed_file)"
  let ?lo = "example_options caller_options []"
  have load: "getConfigFile_load (example_utils []) ?compiler example_loader ?lo False ''typescript@3.5.0''
        None [FileExists ''/a/b/tsconfig.json'', FileExists ''/a/tsconfig.json'', FileExists ''/tsconfig.json'']
      = (\<lparr> config = Some \<lparr> compilerOptions = Some fmempty, files = Some [],
                               otherProperties = fmempty \<rparr>, error = None \<rparr>,
         None, [],
         [FileExists ''/a/b/tsconfig.json'', FileExists ''/a/tsconfig.json'', FileExists ''/tsconfig.json''])"
    by (simp add: getConfigFile_load_def)
  have merge: "getConfigFile_merge
        \<lparr> config = Some \<lparr> compilerOptions = Some fmempty, files = Some [],
                               otherProperties = fmempty \<rparr>, error = None \<rparr> None ?lo
      = Inr \<lparr> config = Some \<lparr> compilerOptions = Some caller_options, files = Some [],
                                       otherProperties = fmempty \<rparr>,
                       error = None \<rparr>"
    by (simp add: getConfigFile_merge_def object_assign_two example_options_def)
  show ?thesis
    unfolding getConfigFile_stages[OF example_absent_in_compiler load] merge by simp
qed

section \<open>The host\<close>

text \<open>
  Claim C5. With both rule lists empty \<open>getSuffixAppendingParseConfigHost\<close> returns the
  system it was given: every operation of the host is the operation of the system, on
  every argument and every state, so its answers and its effects on the system (the
  calls made, and their number) are the system's own, and the rewrite transform is
  never applied.
\<close>

theorem host_without_rules:
  assumes "appendTsSuffixTo loaderOptions = []" and "appendTsxSuffixTo loaderOptions = []"
  shows "getSuffixAppendingParseConfigHost path strings utils sys loaderOptions = sys_as_host sys
     \<and> parse_config_host.useCaseSensitiveFileNames
           (getSuffixAppendingParseConfigHost path strings utils sys loaderOptions)
         = system.useCaseSensitiveFileNames sys
     \<and> parse_config_host.fileExists (getSuffixAppendingParseConfigHost path strings utils sys loaderOptions) name s
         = system.fileExists sys name s
     \<and> parse_config_host.readFile (getSuffixAppendingParseConfigHost path strings utils sys loaderOptions) name s
         = system.readFile sys name s
     \<and> parse_config_host.readDirectory (getSuffixAppendingParseConfigHost path strings utils sys loaderOptions)
           rootDir extensions rest s
         = system.readDirectory sys rootDir (Some extensions) rest s"
  using assms by (simp add: getSuffixAppendingParseConfigHost_def sys_as_host_def)

theorem host_without_rules_witness:
  "parse_config_host.readDirectory
      (getSuffixAppendingParseConfigHost (posix ''/'') ascii_strings (example_utils [])
         (recording_sys (example_fs [''a.vue'', ''b.ts''])) (example_options fmempty []))
      ''/proj'' [''.ts''] [] []
     = ([''b.ts''], [ReadDirectory ''/proj'' (Some [''.ts'']) []])
   \<and> parse_config_host.fileExists
      (getSuffixAppendingParseConfigHost (posix ''/'') ascii_strings (example_utils [])
         (recording_sys (example_fs [''a.vue'', ''b.ts''])) (example_options fmempty []))
      ''a.vue'' []
     = (True, [FileExists ''a.vue''])"
proof -
  have e1: "appendTsSuffixTo (example_options fmempty []) = []"
    and e2: "appendTsxSuffixTo (example_options fmempty []) = []"
    by (simp_all add: example_options_def)
  note t = host_without_rules[OF e1 e2, of "posix ''/''" ascii_strings "example_utils []"
      "recording_sys (example_fs [''a.vue'', ''b.ts''])"]
  have l: "fs_list (example_fs [''a.vue'', ''b.ts'']) ''/proj'' (Some [''.ts'']) [] = [''b.ts'']"
    by code_simp
  have x: "fs_exists (example_fs [''a.vue'', ''b.ts'']) ''a.vue''"
    by code_simp
  show ?thesis
    unfolding t[THEN conjunct2, THEN conjunct2, THEN conjunct2, THEN conjunct2]
      t[THEN conjunct2, THEN conjunct2, THEN conjunct1]
    by (simp add: l x)
qed

text \<open>
  Claim C4, as amended. With a rule in either list, \<open>readDirectory\<close> of the host first
  lists the directory through the system with no extensions and no further arguments;
  for each file of that listing that the transform renames and whose new name has a
  lower-cased extension among the requested ones, the file's own extension, lower-cased,
  is added, unless the file has no extension; the system is then called a second time
  with the requested extensions followed by the added ones and the caller's remaining
  arguments, and every name of that listing is mapped through the transform, in the
  listing's order and with nothing removed. Lower-casing is the runtime's
  \<^verbatim>\<open>toLowerCase\<close>, a parameter here, so the equation holds for every file name. The
  example is the \<^verbatim>\<open>.vue\<close> rule with \<^verbatim>\<open>a.vue\<close> and \<^verbatim>\<open>b.ts\<close>.
\<close>

theorem host_readDirectory:
  assumes "appendTsSuffixTo loaderOptions \<noteq> [] \<or> appendTsxSuffixTo loaderOptions \<noteq> []"
  shows "parse_config_host.readDirectory
           (getSuffixAppendingParseConfigHost path strings utils sys loaderOptions) rootDir extensions rest s
         = (let transformFileName = (\<lambda>fileName. getPossiblyRenamedFilePath utils fileName loaderOptions);
                listing = system.readDirectory sys rootDir None [] s;
                combined = extensions
                  @ discovered_extensions path strings transformFileName extensions (fst listing);
                delegated = system.readDirectory sys rootDir (Some combined) rest (snd listing)
            in (map transformFileName (fst delegated), snd delegated))"
  using assms
  by (auto simp add: getSuffixAppendingParseConfigHost_def Let_def customExtensions_fold
        split: prod.split)

theorem host_readDirectory_witness:
  "parse_config_host.readDirectory
      (getSuffixAppendingParseConfigHost (posix ''/'') ascii_strings (example_utils [])
         (recording_sys (example_fs [''a.vue'', ''b.ts''])) (example_options fmempty [vue_rule]))
      ''/proj'' [''.ts''] [] []
     = ([''a.vue.ts'', ''b.ts''],
        [ReadDirectory ''/proj'' None [], ReadDirectory ''/proj'' (Some [''.ts'', ''.vue'']) []])"
proof -
  let ?lo = "example_options fmempty [vue_rule]"
  let ?fs = "example_fs [''a.vue'', ''b.ts'']"
  have rules: "appendTsSuffixTo ?lo \<noteq> [] \<or> appendTsxSuffixTo ?lo \<noteq> []"
    by (simp add: example_options_def)
  have tr: "getPossiblyRenamedFilePath (example_utils []) = append_suffixes"
    by (simp add: example_utils_def)
  have l1: "fs_list ?fs ''/proj'' None [] = [''a.vue'', ''b.ts'']"
    by code_simp
  have d: "discovered_extensions (posix ''/'') ascii_strings (\<lambda>fileName. append_suffixes fileName ?lo) [''.ts'']
             [''a.vue'', ''b.ts''] = [''.vue'']"
    by code_simp
  have l2: "fs_list ?fs ''/proj'' (Some [''.ts'', ''.vue'']) [] = [''a.vue'', ''b.ts'']"
    by code_simp
  have m: "map (\<lambda>fileName. append_suffixes fileName ?lo) [''a.vue'', ''b.ts''] = [''a.vue.ts'', ''b.ts'']"
    by code_simp
  show ?thesis
    unfolding host_readDirectory[OF rules] tr
    by (simp add: Let_def l1 d l2 m del: list.map)
qed

text \<open>
  The claim as stated fails for \<^verbatim>\<open>A.VUE\<close> and for \<^verbatim>\<open>Makefile\<close>: each is renamed to a
  name with the requested extension \<^verbatim>\<open>.ts\<close>, yet the second call is made with
  \<^verbatim>\<open>.ts\<close> and \<^verbatim>\<open>.vue\<close>: neither \<^verbatim>\<open>.VUE\<close>, the extension of the first file, nor the
  empty extension of the second is among its extensions, and on this file system, which
  compares the case of the letters, the listing leaves \<^verbatim>\<open>A.VUE\<close> out.
\<close>

theorem extension_as_is_counterexample:
  "append_suffixes ''A.VUE'' (example_options fmempty [vue_rule_any_case, makefile_rule]) \<noteq> ''A.VUE''
   \<and> toLowerCase ascii_strings (posix_extname
         (append_suffixes ''A.VUE'' (example_options fmempty [vue_rule_any_case, makefile_rule])))
       \<in> set [''.ts'']
   \<and> posix_extname ''A.VUE'' = ''.VUE''
   \<and> append_suffixes ''Makefile'' (example_options fmempty [vue_rule_any_case, makefile_rule]) \<noteq> ''Makefile''
   \<and> toLowerCase ascii_strings (posix_extname
         (append_suffixes ''Makefile'' (example_options fmempty [vue_rule_any_case, makefile_rule])))
       \<in> set [''.ts'']
   \<and> posix_extname ''Makefile'' = []
   \<and> parse_config_host.readDirectory
        (getSuffixAppendingParseConfigHost (posix ''/'') ascii_strings (example_utils [])
           (recording_sys (example_fs [''A.VUE'', ''Makefile'', ''b.ts'']))
           (example_options fmempty [vue_rule_any_case, makefile_rule]))
        ''/proj'' [''.ts''] [] []
       = ([''b.ts''],
          [ReadDirectory ''/proj'' None [], ReadDirectory ''/proj'' (Some [''.ts'', ''.vue'']) []])"
proof -
  let ?lo = "example_options fmempty [vue_rule_any_case, makefile_rule]"
  let ?fs = "example_fs [''A.VUE'', ''Makefile'', ''b.ts'']"
  have r1: "append_suffixes ''A.VUE'' ?lo = ''A.VUE.ts''" by code_simp
  have r2: "append_suffixes ''Makefile'' ?lo = ''Makefile.ts''" by code_simp
  have x1: "toLowerCase ascii_strings (posix_extname ''A.VUE.ts'') = ''.ts''" by code_simp
  have x2: "toLowerCase ascii_strings (posix_extname ''Makefile.ts'') = ''.ts''" by code_simp
  have x3: "posix_extname ''A.VUE'' = ''.VUE''" by code_simp
  have x4: "posix_extname ''Makefile'' = []" by code_simp
  have rules: "\<not> (appendTsSuffixTo ?lo = [] \<and> appendTsxSuffixTo ?lo = [])"
    by (simp add: example_options_def)
  have tr: "getPossiblyRenamedFilePath (example_utils []) = append_suffixes"
    by (simp add: example_utils_def)
  have l1: "fs_list ?fs ''/proj'' None [] = [''A.VUE'', ''Makefile'', ''b.ts'']"
    by code_simp
  have d: "discovered_extensions (posix ''/'') ascii_strings (\<lambda>fileName. append_suffixes fileName ?lo) [''.ts'']
             [''A.VUE'', ''Makefile'', ''b.ts''] = [''.vue'']"
    by code_simp
  have l2: "fs_list ?fs ''/proj'' (Some [''.ts'', ''.vue'']) [] = [''b.ts'']"
    by code_simp
  have m: "map (\<lambda>fileName. append_suffixes fileName ?lo) [''b.ts''] = [''b.ts'']"
    by code_simp
  have run: "parse_config_host.readDirectory
        (getSuffixAppendingParseConfigHost (posix ''/'') ascii_strings (example_utils []) (recording_sys ?fs) ?lo)
        ''/proj'' [''.ts''] [] []
       = ([''b.ts''],
          [ReadDirectory ''/proj'' None [], ReadDirectory ''/proj'' (Some [''.ts'', ''.vue'']) []])"
    unfolding getSuffixAppendingParseConfigHost_def Let_def tr
    by (simp add: rules customExtensions_fold l1 d l2 m del: list.map)
  show ?thesis
    unfolding r1 r2 x1 x2 x3 x4 run by simp
qed

section \<open>The version test\<close>

text \<open>
  Claim C7. When \<^verbatim>\<open>semver.gte(compiler.version, '3.5.0')\<close> holds,
  \<open>getConfigParseResult\<close> returns the parser's result with the property
  \<^verbatim>\<open>configFilePath\<close> of its options set to the path of the configuration file and every
  other option as the parser gave it; otherwise it returns the parser's result
  unchanged, so the property is not added.
\<close>

theorem getConfigParseResult_version_gate:
  "(gte semver (version compiler) ''3.5.0'' \<longrightarrow>
      getConfigParseResult path strings utils semver compiler configFile basePath configFilePath loaderOptions s
        = ((fst (parseJsonConfigFileContent compiler (config configFile)
                   (getSuffixAppendingParseConfigHost path strings utils (compiler_sys compiler) loaderOptions)
                   basePath s))
             \<lparr> options := fmupd ''configFilePath'' (js_string_or_undefined configFilePath)
                 (options (fst (parseJsonConfigFileContent compiler (config configFile)
                   (getSuffixAppendingParseConfigHost path strings utils (compiler_sys compiler) loaderOptions)
                   basePath s))) \<rparr>,
           snd (parseJsonConfigFileContent compiler (config configFile)
                   (getSuffixAppendingParseConfigHost path strings utils (compiler_sys compiler) loaderOptions)
                   basePath s)))
   \<and> (\<not> gte semver (version compiler) ''3.5.0'' \<longrightarrow>
      getConfigParseResult path strings utils semver compiler configFile basePath configFilePath loaderOptions s
        = parseJsonConfigFileContent compiler (config configFile)
            (getSuffixAppendingParseConfigHost path strings utils (compiler_sys compiler) loaderOptions)
            basePath s)"
  by (simp add: getConfigParseResult_def object_assign_two split: prod.split)

theorem getConfigParseResult_version_gate_witness:
  "getConfigParseResult (posix ''/'') ascii_strings (example_utils []) example_semver
      (example_compiler ''3.7.2'' (example_fs [''/a/tsconfig.json'']) (\<lambda>fileName. parsed_file))
      parsed_file ''/a'' (Some ''/a/tsconfig.json'') (example_options caller_options []) []
     = (\<lparr> options = fmap_of_list [(''a'', JNum 1), (''b'', JNum 2),
                                     (''configFilePath'', JStr ''/a/tsconfig.json'')],
          fileNames = [], errors = [] \<rparr>,
        [ReadDirectory ''/a'' (Some [''.ts'', ''.tsx'', ''.d.ts'']) []])
   \<and> getConfigParseResult (posix ''/'') ascii_strings (example_utils []) example_semver
      (example_compiler ''3.4.5'' (example_fs [''/a/tsconfig.json'']) (\<lambda>fileName. parsed_file))
      parsed_file ''/a'' (Some ''/a/tsconfig.json'') (example_options caller_options []) []
     = (\<lparr> options = fmap_of_list [(''a'', JNum 1), (''b'', JNum 2)],
          fileNames = [], errors = [] \<rparr>,
        [ReadDirectory ''/a'' (Some [''.ts'', ''.tsx'', ''.d.ts'']) []])"
proof -
  have v1: "gte example_semver (version (example_compiler ''3.7.2'' (example_fs [''/a/tsconfig.json'']) (\<lambda>fileName. parsed_file))) ''3.5.0''"
    by (simp add: example_compiler_def example_versions)
  have v2: "\<not> gte example_semver (version (example_compiler ''3.4.5'' (example_fs [''/a/tsconfig.json'']) (\<lambda>fileName. parsed_file))) ''3.5.0''"
    by (simp add: example_compiler_def example_versions)
  have o: "fmupd ''configFilePath'' (JStr ''/a/tsconfig.json'') file_options
      = fmap_of_list [(''a'', JNum 1), (''b'', JNum 2), (''configFilePath'', JStr ''/a/tsconfig.json'')]"
    by code_simp
  have a: "getConfigParseResult (posix ''/'') ascii_strings (example_utils []) example_semver
      (example_compiler ''3.7.2'' (example_fs [''/a/tsconfig.json'']) (\<lambda>fileName. parsed_file))
      parsed_file ''/a'' (Some ''/a/tsconfig.json'') (example_options caller_options []) []
     = (\<lparr> options = fmap_of_list [(''a'', JNum 1), (''b'', JNum 2),
                                     (''configFilePath'', JStr ''/a/tsconfig.json'')],
          fileNames = [], errors = [] \<rparr>,
        [ReadDirectory ''/a'' (Some [''.ts'', ''.tsx'', ''.d.ts'']) []])"
    unfolding getConfigParseResult_version_gate[THEN conjunct1, THEN mp, OF v1] example_parse
    by (simp add: js_string_or_undefined_def o)
  have b: "getConfigParseResult (posix ''/'') ascii_strings (example_utils []) example_semver
      (example_compiler ''3.4.5'' (example_fs [''/a/tsconfig.json'']) (\<lambda>fileName. parsed_file))
      parsed_file ''/a'' (Some ''/a/tsconfig.json'') (example_options caller_options []) []
     = (\<lparr> options = fmap_of_list [(''a'', JNum 1), (''b'', JNum 2)],
          fileNames = [], errors = [] \<rparr>,
        [ReadDirectory ''/a'' (Some [''.ts'', ''.tsx'', ''.d.ts'']) []])"
    unfolding getConfigParseResult_version_gate[THEN conjunct2, THEN mp, OF v2] example_parse
    by (simp add: file_options_def)
  from a b show ?thesis by (rule conjI)
qed

text \<open>
  Claim C10. When \<^verbatim>\<open>semver.gte(compiler.version, '3.5.0')\<close> holds and no configuration
  file was found, \<open>getConfigParseResult\<close> returns the parser's result with its options
  replaced by the parser's options plus the property \<^verbatim>\<open>configFilePath\<close>, whose value is
  \<^verbatim>\<open>undefined\<close>: the key is added to the options that were parsed, present in them and
  not omitted, and every other option, the file names, the errors and the state of the
  system are the parser's.
\<close>

theorem getConfigParseResult_undefined_path:
  assumes "gte semver (version compiler) ''3.5.0''"
  shows "getConfigParseResult path strings utils semver compiler configFile basePath None
             loaderOptions s
           = ((fst (parseJsonConfigFileContent compiler (config configFile)
                      (getSuffixAppendingParseConfigHost path strings utils (compiler_sys compiler)
                         loaderOptions)
                      basePath s))
                \<lparr> options := fmupd ''configFilePath'' JUndefined
                    (options (fst (parseJsonConfigFileContent compiler (config configFile)
                      (getSuffixAppendingParseConfigHost path strings utils (compiler_sys compiler)
                         loaderOptions)
                      basePath s))) \<rparr>,
              snd (parseJsonConfigFileContent compiler (config configFile)
                      (getSuffixAppendingParseConfigHost path strings utils (compiler_sys compiler)
                         loaderOptions)
                      basePath s))
     \<and> fmlookup (options (fst (getConfigParseResult path strings utils semver compiler configFile
                                   basePath None loaderOptions s))) ''configFilePath''
           = Some JUndefined
     \<and> ''configFilePath'' |\<in>| fmdom (options (fst (getConfigParseResult path strings utils semver
                                   compiler configFile basePath None loaderOptions s)))"
  using assms
  by (simp add: getConfigParseResult_def object_assign_two js_string_or_undefined_def
        split: prod.split)

theorem getConfigParseResult_undefined_path_witness:
  "getConfigParseResult (posix ''/'') ascii_strings (example_utils []) example_semver
      (example_compiler ''3.5.0'' (example_fs []) (\<lambda>fileName. parsed_file))
      \<lparr> config = Some \<lparr> compilerOptions = Some caller_options, files = Some [],
                          otherProperties = fmempty \<rparr>, error = None \<rparr>
      ''/a'' None (example_options caller_options []) []
     = (\<lparr> options = fmap_of_list [(''b'', JNum 3), (''c'', JNum 4), (''configFilePath'', JUndefined)],
          fileNames = [], errors = [] \<rparr>,
        [ReadDirectory ''/a'' (Some [''.ts'', ''.tsx'', ''.d.ts'']) []])
   \<and> fmlookup (options (fst (getConfigParseResult (posix ''/'') ascii_strings (example_utils [])
      example_semver
      (example_compiler ''3.5.0'' (example_fs []) (\<lambda>fileName. parsed_file))
      \<lparr> config = Some \<lparr> compilerOptions = Some caller_options, files = Some [],
                          otherProperties = fmempty \<rparr>, error = None \<rparr>
      ''/a'' None (example_options caller_options []) []))) ''configFilePath''
     = Some JUndefined"
proof -
  have v: "gte example_semver (version (example_compiler ''3.5.0'' (example_fs []) (\<lambda>fileName. parsed_file))) ''3.5.0''"
    by (simp add: example_compiler_def example_versions)
  note t = getConfigParseResult_undefined_path[OF v, of "posix ''/''" ascii_strings "example_utils []"
      "\<lparr> config = Some \<lparr> compilerOptions = Some caller_options, files = Some [],
                          otherProperties = fmempty \<rparr>, error = None \<rparr>"
      "''/a''" "example_options caller_options []" "[]"]
  have o: "fmupd ''configFilePath'' JUndefined caller_options
      = fmap_of_list [(''b'', JNum 3), (''c'', JNum 4), (''configFilePath'', JUndefined)]"
    by code_simp
  have a: "getConfigParseResult (posix ''/'') ascii_strings (example_utils []) example_semver
      (example_compiler ''3.5.0'' (example_fs []) (\<lambda>fileName. parsed_file))
      \<lparr> config = Some \<lparr> compilerOptions = Some caller_options, files = Some [],
                          otherProperties = fmempty \<rparr>, error = None \<rparr>
      ''/a'' None (example_options caller_options []) []
     = (\<lparr> options = fmap_of_list [(''b'', JNum 3), (''c'', JNum 4), (''configFilePath'', JUndefined)],
          fileNames = [], errors = [] \<rparr>,
        [ReadDirectory ''/a'' (Some [''.ts'', ''.tsx'', ''.d.ts'']) []])"
    unfolding t[THEN conjunct1] by (simp add: example_parse_default o)
  from a t[THEN conjunct2, THEN conjunct1] show ?thesis by (rule conjI)
qed

end
